theory Spec2Isabelle
  imports Complex_Main
begin

section \<open>smoothing.py: bounding boxes and the detection smoother\<close>

text \<open>
  Python's \<open>float\<close> coordinates and the smoothing factor are given by their values,
  real numbers. In this section the arithmetic of \<open>_smooth_box\<close> is exact; the section
  on double-precision arithmetic below gives it with the rounding of every operation.
  Python's \<open>int\<close> counters are
  \<open>int\<close>. \<open>Optional[T]\<close> is \<open>T option\<close>. The private attributes
  \<open>_smoothed_box\<close>, \<open>_frames_without_detection\<close> and \<open>_last_payload\<close> lose their
  leading underscore; the fields of \<open>BoundingBox\<close> carry the prefix \<open>bb_\<close>.
\<close>

record BoundingBox =
  bb_x :: real
  bb_y :: real
  bb_width :: real
  bb_height :: real

record DetectedQR =
  payload :: string
  bounding_box :: BoundingBox

record BoundingBoxSmoother =
  persistence_frames :: int
  smoothing_alpha :: real
  smoothed_box :: "BoundingBox option"
  frames_without_detection :: int
  last_payload :: "string option"

text \<open>\<open>BoundingBoxSmoother.__init__(persistence_frames, smoothing_alpha)\<close>.\<close>

definition smoother_init :: "int \<Rightarrow> real \<Rightarrow> BoundingBoxSmoother" where
  "smoother_init p a =
     \<lparr>persistence_frames = p, smoothing_alpha = a,
      smoothed_box = None, frames_without_detection = 0, last_payload = None\<rparr>"

text \<open>The \<open>alpha\<close> setter: \<open>max(0.0, min(1.0, value))\<close>.\<close>

definition set_alpha :: "BoundingBoxSmoother \<Rightarrow> real \<Rightarrow> BoundingBoxSmoother" where
  "set_alpha s v = s\<lparr>smoothing_alpha := max 0 (min 1 v)\<rparr>"

text \<open>
  \<open>_smooth_box(new_box)\<close>: stores and returns the raw box when no box is stored;
  otherwise blends each coordinate with the stored one.
\<close>

definition smooth_box ::
  "BoundingBoxSmoother \<Rightarrow> BoundingBox \<Rightarrow> BoundingBoxSmoother \<times> BoundingBox" where
  "smooth_box s new_box =
     (case smoothed_box s of
        None \<Rightarrow> (s\<lparr>smoothed_box := Some new_box\<rparr>, new_box)
      | Some old \<Rightarrow>
          (let alpha = smoothing_alpha s;
               smoothed =
                 \<lparr>bb_x = alpha * bb_x new_box + (1 - alpha) * bb_x old,
                  bb_y = alpha * bb_y new_box + (1 - alpha) * bb_y old,
                  bb_width = alpha * bb_width new_box + (1 - alpha) * bb_width old,
                  bb_height = alpha * bb_height new_box + (1 - alpha) * bb_height old\<rparr>
           in (s\<lparr>smoothed_box := Some smoothed\<rparr>, smoothed)))"

text \<open>\<open>update(detection)\<close>: the new state and the stabilised detection it returns.\<close>

definition update ::
  "BoundingBoxSmoother \<Rightarrow> DetectedQR option \<Rightarrow> BoundingBoxSmoother \<times> DetectedQR option" where
  "update s det =
     (case det of
        Some d \<Rightarrow>
          (let s1 = s\<lparr>frames_without_detection := 0\<rparr>;
               s2 = s1\<lparr>last_payload := Some (payload d)\<rparr>;
               (s3, smoothed) = smooth_box s2 (bounding_box d)
           in (s3, Some \<lparr>payload = payload d, bounding_box = smoothed\<rparr>))
      | None \<Rightarrow>
          (let s1 = s\<lparr>frames_without_detection := frames_without_detection s + 1\<rparr>
           in if frames_without_detection s1 \<ge> persistence_frames s1
              then (s1\<lparr>smoothed_box := None, last_payload := None\<rparr>, None)
              else (case smoothed_box s1 of
                      None \<Rightarrow> (s1, None)
                    | Some b \<Rightarrow>
                        (case last_payload s1 of
                           None \<Rightarrow> (s1, None)
                         | Some p \<Rightarrow> (s1, Some \<lparr>payload = p, bounding_box = b\<rparr>)))))"

text \<open>\<open>reset()\<close>.\<close>

definition reset :: "BoundingBoxSmoother \<Rightarrow> BoundingBoxSmoother" where
  "reset s = s\<lparr>smoothed_box := None, frames_without_detection := 0, last_payload := None\<rparr>"

text \<open>The state after \<open>k\<close> consecutive calls \<open>update(None)\<close>.\<close>

primrec miss_n :: "nat \<Rightarrow> BoundingBoxSmoother \<Rightarrow> BoundingBoxSmoother" where
  "miss_n 0 s = s"
| "miss_n (Suc k) s = fst (update (miss_n k s) None)"

text \<open>The state after \<open>n\<close> consecutive calls \<open>update(d)\<close> with the same detection.\<close>

primrec hit_n :: "nat \<Rightarrow> BoundingBoxSmoother \<Rightarrow> DetectedQR \<Rightarrow> BoundingBoxSmoother" where
  "hit_n 0 s d = s"
| "hit_n (Suc n) s d = fst (update (hit_n n s d) (Some d))"

text \<open>
  The calls a client can make on a smoother, and the state after a sequence of them,
  oldest first.
\<close>

datatype smoother_call = Update "DetectedQR option" | Reset | SetAlpha real

fun apply_call :: "BoundingBoxSmoother \<Rightarrow> smoother_call \<Rightarrow> BoundingBoxSmoother" where
  "apply_call s (Update d) = fst (update s d)"
| "apply_call s Reset = reset s"
| "apply_call s (SetAlpha v) = set_alpha s v"

definition smoother_calls :: "BoundingBoxSmoother \<Rightarrow> smoother_call list \<Rightarrow> BoundingBoxSmoother" where
  "smoother_calls s cs = foldl apply_call s cs"

text \<open>The invariant: a box is stored exactly when a payload is.\<close>

definition box_iff_payload :: "BoundingBoxSmoother \<Rightarrow> bool" where
  "box_iff_payload s = ((smoothed_box s = None) = (last_payload s = None))"

text \<open>
  One coordinate got strictly closer to its target \<open>t\<close> when it moved from \<open>v\<close> to
  \<open>v'\<close>; a coordinate already on target stays there.
\<close>

definition closer :: "real \<Rightarrow> real \<Rightarrow> real \<Rightarrow> bool" where
  "closer t v v' = (if v = t then v' = t else \<bar>v' - t\<bar> < \<bar>v - t\<bar>)"

text \<open>Sample data: the target marker seen at one place, and a smoother that holds a box.\<close>

definition sample_qr :: DetectedQR where
  "sample_qr =
     \<lparr>payload = ''ROBOT_R1'',
      bounding_box = \<lparr>bb_x = 8, bb_y = 4, bb_width = 2, bb_height = 6\<rparr>\<rparr>"

definition sample_smoother :: BoundingBoxSmoother where
  "sample_smoother =
     \<lparr>persistence_frames = 3, smoothing_alpha = 1 / 2,
      smoothed_box = Some \<lparr>bb_x = 0, bb_y = 0, bb_width = 10, bb_height = 10\<rparr>,
      frames_without_detection = 2, last_payload = Some ''ROBOT_R1''\<rparr>"

section \<open>smoothing.py in double-precision arithmetic\<close>

text \<open>
  A Python \<open>float\<close> is an IEEE-754 double: 53 significant bits, and every \<open>+\<close>, \<open>-\<close>
  and \<open>*\<close> returns the double nearest to the exact result, a tie going to the even
  significand. Here a double is given by its value, a real number. Doubles in the binade
  \<open>[2^e, 2^(e+1))\<close> are \<open>2^(e-52)\<close> apart; below \<open>2^-1022\<close> they are \<open>2^-1074\<close>
  apart. A result of magnitude \<open>2^1024\<close> or more, which the hardware turns into an
  infinity, is outside this model.
\<close>

text \<open>The binade of a positive value, found by halving or doubling it into \<open>[1, 2)\<close>.\<close>

primrec exponent_from :: "nat \<Rightarrow> real \<Rightarrow> int \<Rightarrow> int" where
  "exponent_from 0 x e = e"
| "exponent_from (Suc k) x e =
     (if 2 \<le> x then exponent_from k (x / 2) (e + 1)
      else if x < 1 then exponent_from k (x * 2) (e - 1)
      else e)"

definition binade :: "real \<Rightarrow> int" where
  "binade x = exponent_from 1100 \<bar>x\<bar> 0"

text \<open>The distance between neighbouring doubles around \<open>x\<close>.\<close>

definition quantum :: "real \<Rightarrow> real" where
  "quantum x = 2 powi (max (binade x) (- 1022) - 52)"

text \<open>The nearest integer, a tie going to the even one.\<close>

definition round_half_even :: "real \<Rightarrow> int" where
  "round_half_even y =
     (let f = \<lfloor>y\<rfloor>
      in if y - of_int f < 1 / 2 then f
         else if 1 / 2 < y - of_int f then f + 1
         else if even f then f else f + 1)"

text \<open>The double nearest to \<open>x\<close>; a literal such as \<open>0.3\<close> denotes \<open>round_double (3 / 10)\<close>.\<close>

definition round_double :: "real \<Rightarrow> real" where
  "round_double x = of_int (round_half_even (x / quantum x)) * quantum x"

text \<open>
  One coordinate of \<open>_smooth_box\<close> as the interpreter computes it:
  \<open>alpha * new + (1 - alpha) * old\<close>, each of the four operations rounded.
\<close>

definition blend_double :: "real \<Rightarrow> real \<Rightarrow> real \<Rightarrow> real" where
  "blend_double alpha new old =
     round_double (round_double (alpha * new) + round_double (round_double (1 - alpha) * old))"

text \<open>\<open>_smooth_box\<close> and \<open>update\<close> with this arithmetic; nothing else differs.\<close>

definition smooth_box_double ::
  "BoundingBoxSmoother \<Rightarrow> BoundingBox \<Rightarrow> BoundingBoxSmoother \<times> BoundingBox" where
  "smooth_box_double s new_box =
     (case smoothed_box s of
        None \<Rightarrow> (s\<lparr>smoothed_box := Some new_box\<rparr>, new_box)
      | Some old \<Rightarrow>
          (let alpha = smoothing_alpha s;
               smoothed =
                 \<lparr>bb_x = blend_double alpha (bb_x new_box) (bb_x old),
                  bb_y = blend_double alpha (bb_y new_box) (bb_y old),
                  bb_width = blend_double alpha (bb_width new_box) (bb_width old),
                  bb_height = blend_double alpha (bb_height new_box) (bb_height old)\<rparr>
           in (s\<lparr>smoothed_box := Some smoothed\<rparr>, smoothed)))"

definition update_double ::
  "BoundingBoxSmoother \<Rightarrow> DetectedQR option \<Rightarrow> BoundingBoxSmoother \<times> DetectedQR option" where
  "update_double s det =
     (case det of
        Some d \<Rightarrow>
          (let s1 = s\<lparr>frames_without_detection := 0\<rparr>;
               s2 = s1\<lparr>last_payload := Some (payload d)\<rparr>;
               (s3, smoothed) = smooth_box_double s2 (bounding_box d)
           in (s3, Some \<lparr>payload = payload d, bounding_box = smoothed\<rparr>))
      | None \<Rightarrow> update s None)"

text \<open>The state after \<open>n\<close> consecutive calls \<open>update(d)\<close> with the same detection.\<close>

primrec hit_double :: "nat \<Rightarrow> BoundingBoxSmoother \<Rightarrow> DetectedQR \<Rightarrow> BoundingBoxSmoother" where
  "hit_double 0 s d = s"
| "hit_double (Suc n) s d = fst (update_double (hit_double n s d) (Some d))"

text \<open>
  What rounding can add to the distance of a coordinate in one step, for a target \<open>t\<close>
  and a stored value \<open>v\<close>; and a step from \<open>v\<close> to \<open>v'\<close> that shrinks the distance
  to \<open>t\<close> by the factor \<open>1 - alpha\<close> up to that.
\<close>

definition rounding_slack :: "real \<Rightarrow> real \<Rightarrow> real" where
  "rounding_slack t v = (\<bar>t\<bar> + \<bar>v\<bar>) / 2 ^ 49 + 1 / 2 ^ 1072"

definition contracted :: "real \<Rightarrow> real \<Rightarrow> real \<Rightarrow> real \<Rightarrow> bool" where
  "contracted alpha t v v' = (\<bar>v' - t\<bar> \<le> (1 - alpha) * \<bar>v - t\<bar> + rounding_slack t v)"

text \<open>
  The value of a coordinate after \<open>n\<close> rounded blends with the same target; and a value
  \<open>v'\<close> reached from \<open>v\<close> in \<open>n\<close> steps that has come as close to the target as
  rounding allows: the distance shrank by the factor \<open>1 - alpha + 2^-49\<close> per step, up
  to a floor proportional to the target.
\<close>

primrec blend_repeated :: "nat \<Rightarrow> real \<Rightarrow> real \<Rightarrow> real \<Rightarrow> real" where
  "blend_repeated 0 alpha t v = v"
| "blend_repeated (Suc n) alpha t v = blend_double alpha t (blend_repeated n alpha t v)"

definition settled :: "real \<Rightarrow> nat \<Rightarrow> real \<Rightarrow> real \<Rightarrow> real \<Rightarrow> bool" where
  "settled alpha n t v v' =
     (\<bar>v' - t\<bar> \<le> (1 - alpha + 1 / 2 ^ 49) ^ n * \<bar>v - t\<bar> +
        (\<bar>t\<bar> / 2 ^ 48 + 1 / 2 ^ 1072) / (alpha - 1 / 2 ^ 49))"

text \<open>All four coordinates of a box are at most \<open>m\<close> in magnitude.\<close>

definition coordinates_within :: "real \<Rightarrow> BoundingBox \<Rightarrow> bool" where
  "coordinates_within m b =
     (\<bar>bb_x b\<bar> \<le> m \<and> \<bar>bb_y b\<bar> \<le> m \<and> \<bar>bb_width b\<bar> \<le> m \<and> \<bar>bb_height b\<bar> \<le> m)"

text \<open>
  Sample data: a smoother with \<open>alpha = 0.3\<close> whose stored box is the square box at 6,
  and a detection of the target at exactly that box.
\<close>

definition box_at_six :: BoundingBox where
  "box_at_six = \<lparr>bb_x = 6, bb_y = 6, bb_width = 6, bb_height = 6\<rparr>"

text \<open>The double next below 6, which prints as \<open>5.999999999999999\<close>.\<close>

definition just_below_six :: real where
  "just_below_six = 6 - 1 / 2 ^ 50"

definition box_below_six :: BoundingBox where
  "box_below_six =
     \<lparr>bb_x = just_below_six, bb_y = just_below_six,
      bb_width = just_below_six, bb_height = just_below_six\<rparr>"

definition on_target_smoother :: BoundingBoxSmoother where
  "on_target_smoother =
     \<lparr>persistence_frames = 5, smoothing_alpha = round_double (3 / 10),
      smoothed_box = Some box_at_six,
      frames_without_detection = 0, last_payload = Some ''ROBOT_R1''\<rparr>"

definition on_target_qr :: DetectedQR where
  "on_target_qr = \<lparr>payload = ''ROBOT_R1'', bounding_box = box_at_six\<rparr>"

section \<open>Python values the other modules handle\<close>

text \<open>
  The exceptions the code names or can meet, as values. \<open>Timeout\<close> is
  \<open>requests.exceptions.Timeout\<close>; \<open>RequestException\<close> stands for every other
  \<open>requests\<close> exception (the \<open>HTTPError\<close> that \<open>raise_for_status\<close> raises on an
  error status, a connection error); \<open>Full\<close> and \<open>Empty\<close> are the two exceptions of
  \<open>queue\<close>; \<open>OtherException\<close> is any other subclass of \<open>Exception\<close>.
\<close>

datatype py_exception =
    Timeout | RequestException
  | KeyError | IndexError | TypeError | AttributeError | ValueError
  | OverflowError | UnicodeDecodeError | Full | Empty | OtherException

text \<open>
  A decoded JSON document; a \<open>dict\<close> is the list of its items, keys distinct. A JSON
  number without fraction or exponent is a Python \<open>int\<close> of any size, any other number
  a \<open>float\<close>. A \<open>float\<close> is given by its value, a real number; the infinities and
  NaN are not represented.
\<close>

datatype json =
    JNull | JBool bool | JInt int | JFloat real | JStr string
  | JArr "json list" | JObj "(string \<times> json) list"

text \<open>
  An image (\<open>numpy.ndarray\<close>): its rows of pixels. \<open>shape[0]\<close> is the number of rows,
  \<open>shape[1]\<close> the length of a row. \<open>frame.copy()\<close> is the same value.
\<close>

type_synonym ndarray = "nat list list"

definition shape0 :: "ndarray \<Rightarrow> int" where
  "shape0 img = int (length img)"

definition shape1 :: "ndarray \<Rightarrow> int" where
  "shape1 img = (case img of [] \<Rightarrow> 0 | row # _ \<Rightarrow> int (length row))"

text \<open>\<open>cv2.flip(frame, 1)\<close>: mirror every row.\<close>

definition flip_horizontal :: "ndarray \<Rightarrow> ndarray" where
  "flip_horizontal img = map rev img"

text \<open>Truth value of a JSON value in a condition (\<open>not outputs\<close>).\<close>

fun truthy :: "json \<Rightarrow> bool" where
  "truthy JNull = False"
| "truthy (JBool b) = b"
| "truthy (JInt n) = (n \<noteq> 0)"
| "truthy (JFloat r) = (r \<noteq> 0)"
| "truthy (JStr s) = (s \<noteq> [])"
| "truthy (JArr vs) = (vs \<noteq> [])"
| "truthy (JObj kvs) = (kvs \<noteq> [])"

text \<open>\<open>v.get(key, default)\<close>: only a \<open>dict\<close> has the method.\<close>

fun py_get :: "json \<Rightarrow> string \<Rightarrow> json \<Rightarrow> py_exception + json" where
  "py_get (JObj kvs) k dflt = Inr (case map_of kvs k of None \<Rightarrow> dflt | Some v \<Rightarrow> v)"
| "py_get _ k dflt = Inl AttributeError"

text \<open>
  \<open>v[0]\<close>: the first element of a list, the first character of a string; a \<open>dict\<close> of
  JSON has no key \<open>0\<close>; other values are not subscriptable.
\<close>

fun py_index0 :: "json \<Rightarrow> py_exception + json" where
  "py_index0 (JArr (v # vs)) = Inr v"
| "py_index0 (JArr []) = Inl IndexError"
| "py_index0 (JStr (c # cs)) = Inr (JStr [c])"
| "py_index0 (JStr []) = Inl IndexError"
| "py_index0 (JObj kvs) = Inl KeyError"
| "py_index0 _ = Inl TypeError"

text \<open>
  \<open>for pred in v\<close>: the elements of a list, the characters of a string, the keys of a
  \<open>dict\<close>; other values are not iterable.
\<close>

fun py_iter :: "json \<Rightarrow> py_exception + json list" where
  "py_iter (JArr vs) = Inr vs"
| "py_iter (JStr cs) = Inr (map (\<lambda>c. JStr [c]) cs)"
| "py_iter (JObj kvs) = Inr (map (\<lambda>kv. JStr (fst kv)) kvs)"
| "py_iter _ = Inl TypeError"

text \<open>
  Converting an \<open>int\<close> to \<open>float\<close> rounds to the nearest double and raises
  \<open>OverflowError\<close> when that is beyond the largest one: from \<open>2^1024 - 2^970\<close> on in
  magnitude.
\<close>

definition float_overflow :: "int \<Rightarrow> bool" where
  "float_overflow n = (2 ^ 1024 - 2 ^ 970 \<le> \<bar>n\<bar>)"

text \<open>The number a JSON value is (\<open>bool\<close> is a subclass of \<open>int\<close>).\<close>

fun as_number :: "json \<Rightarrow> real option" where
  "as_number (JFloat r) = Some r"
| "as_number (JInt n) = Some (of_int n)"
| "as_number (JBool b) = Some (if b then 1 else 0)"
| "as_number _ = None"

text \<open>
  Formatting with a float format (\<open>:.2f\<close>, \<open>:.0f\<close>): an \<open>int\<close> is converted to
  \<open>float\<close> first; a string raises \<open>ValueError\<close>, any other value \<open>TypeError\<close>.
\<close>

fun format_float :: "json \<Rightarrow> py_exception + unit" where
  "format_float (JFloat r) = Inr ()"
| "format_float (JInt n) = (if float_overflow n then Inl OverflowError else Inr ())"
| "format_float (JBool b) = Inr ()"
| "format_float (JStr s) = Inl ValueError"
| "format_float _ = Inl TypeError"

text \<open>
  \<open>v / 2\<close>: the true division of an \<open>int\<close> raises \<open>OverflowError\<close> when the quotient
  rounds beyond the largest double; a value that is not a number raises \<open>TypeError\<close>.
\<close>

fun halved :: "json \<Rightarrow> py_exception + real" where
  "halved (JFloat r) = Inr (r / 2)"
| "halved (JInt n) =
     (if 2 ^ 1025 - 2 ^ 971 \<le> \<bar>n\<bar> then Inl OverflowError else Inr (of_int n / 2))"
| "halved (JBool b) = Inr ((if b then 1 else 0) / 2)"
| "halved _ = Inl TypeError"

text \<open>
  \<open>v - q\<close> for a \<open>float\<close> \<open>q\<close>: an \<open>int\<close> is converted to \<open>float\<close> first; a value
  that is not a number raises \<open>TypeError\<close>.
\<close>

fun minus_float :: "json \<Rightarrow> real \<Rightarrow> py_exception + real" where
  "minus_float (JFloat r) q = Inr (r - q)"
| "minus_float (JInt n) q = (if float_overflow n then Inl OverflowError else Inr (of_int n - q))"
| "minus_float (JBool b) q = Inr ((if b then 1 else 0) - q)"
| "minus_float _ q = Inl TypeError"

section \<open>config.py\<close>

definition ROBOFLOW_FRAME_INTERVAL :: int where
  "ROBOFLOW_FRAME_INTERVAL = 3"

definition ROBOFLOW_PERSISTENCE_FRAMES :: int where
  "ROBOFLOW_PERSISTENCE_FRAMES = 3"

definition ROBOFLOW_TARGET_CLASS :: string where
  "ROBOFLOW_TARGET_CLASS = ''laptop''"

section \<open>roboflow\_client.py\<close>

text \<open>
  \<open>RoboflowDetection\<close> holds the values of the response as they came (the dataclass
  converts nothing); its coordinate fields carry the prefix \<open>det_\<close>.
\<close>

record RoboflowDetection =
  class_name :: string
  confidence :: json
  det_x :: json
  det_y :: json
  det_width :: json
  det_height :: json

text \<open>
  The \<open>bbox\<close> property: \<open>(x - width / 2, y - height / 2, width, height)\<close>, evaluated
  left to right. The last two components are the fields as they are.
\<close>

definition bbox :: "RoboflowDetection \<Rightarrow> py_exception + real \<times> real \<times> real \<times> real" where
  "bbox d =
     (case halved (det_width d) of
        Inl e \<Rightarrow> Inl e
      | Inr half_width \<Rightarrow>
          (case minus_float (det_x d) half_width of
             Inl e \<Rightarrow> Inl e
           | Inr box_x \<Rightarrow>
               (case halved (det_height d) of
                  Inl e \<Rightarrow> Inl e
                | Inr half_height \<Rightarrow>
                    (case minus_float (det_y d) half_height of
                       Inl e \<Rightarrow> Inl e
                     | Inr box_y \<Rightarrow>
                         (case (as_number (det_width d), as_number (det_height d)) of
                            (Some w, Some h) \<Rightarrow> Inr (box_x, box_y, w, h)
                          | _ \<Rightarrow> Inl TypeError)))))"

record RoboflowResult =
  detected :: bool
  detection :: "RoboflowDetection option"
  image_width :: int
  image_height :: int

text \<open>The result every path without a detection builds.\<close>

definition no_detection :: "ndarray \<Rightarrow> RoboflowResult" where
  "no_detection frame =
     \<lparr>detected = False, detection = None,
      image_width = shape1 frame, image_height = shape0 frame\<rparr>"

text \<open>The loop of \<open>_parse_response\<close> over the predictions: the first of the target class.\<close>

fun find_target_class :: "json list \<Rightarrow> py_exception + RoboflowDetection option" where
  "find_target_class [] = Inr None"
| "find_target_class (pred # preds) =
     (case py_get pred ''class'' JNull of
        Inl e \<Rightarrow> Inl e
      | Inr c \<Rightarrow>
          if c = JStr ROBOFLOW_TARGET_CLASS
          then (case (py_get pred ''confidence'' (JInt 0), py_get pred ''x'' (JInt 0),
                      py_get pred ''y'' (JInt 0), py_get pred ''width'' (JInt 0),
                      py_get pred ''height'' (JInt 0)) of
                  (Inr cf, Inr x, Inr y, Inr w, Inr h) \<Rightarrow>
                    Inr (Some \<lparr>class_name = ROBOFLOW_TARGET_CLASS, confidence = cf,
                               det_x = x, det_y = y, det_width = w, det_height = h\<rparr>)
                | _ \<Rightarrow> Inl AttributeError)
          else find_target_class preds)"

text \<open>The body of the \<open>try\<close> of \<open>_parse_response\<close>.\<close>

definition parse_try :: "json \<Rightarrow> py_exception + RoboflowDetection option" where
  "parse_try response =
     (case py_get response ''outputs'' (JArr []) of
        Inl e \<Rightarrow> Inl e
      | Inr outputs \<Rightarrow>
          if \<not> truthy outputs then Inr None
          else (case py_index0 outputs of
                  Inl e \<Rightarrow> Inl e
                | Inr out0 \<Rightarrow>
                    (case py_get out0 ''predictions'' (JObj []) of
                       Inl e \<Rightarrow> Inl e
                     | Inr predictions_data \<Rightarrow>
                         (case py_get predictions_data ''predictions'' (JArr []) of
                            Inl e \<Rightarrow> Inl e
                          | Inr predictions \<Rightarrow>
                              (case py_iter predictions of
                                 Inl e \<Rightarrow> Inl e
                               | Inr preds \<Rightarrow> find_target_class preds)))))"

text \<open>
  \<open>_parse_response(response, frame.shape)\<close>: \<open>KeyError\<close>, \<open>IndexError\<close> and
  \<open>TypeError\<close> are caught and give no detection; any other exception leaves the method.
\<close>

definition parse_response :: "json \<Rightarrow> ndarray \<Rightarrow> py_exception + RoboflowResult" where
  "parse_response response frame =
     (case parse_try response of
        Inr (Some d) \<Rightarrow>
          Inr \<lparr>detected = True, detection = Some d,
               image_width = shape1 frame, image_height = shape0 frame\<rparr>
      | Inr None \<Rightarrow> Inr (no_detection frame)
      | Inl e \<Rightarrow>
          if e = KeyError \<or> e = IndexError \<or> e = TypeError
          then Inr (no_detection frame) else Inl e)"

text \<open>
  What the calls outside this repository do in one \<open>detect\<close>: encoding the frame, the
  POST, \<open>raise_for_status\<close> and \<open>response.json()\<close> either raise (a timeout, an error
  status, anything else) or deliver the decoded body.
\<close>

datatype http_call = Raises py_exception | Responds json

text \<open>The message logged for a detection formats confidence, x and y as floats.\<close>

definition log_detection :: "RoboflowDetection \<Rightarrow> py_exception + unit" where
  "log_detection d =
     (case format_float (confidence d) of
        Inl e \<Rightarrow> Inl e
      | Inr _ \<Rightarrow>
          (case format_float (det_x d) of
             Inl e \<Rightarrow> Inl e
           | Inr _ \<Rightarrow> format_float (det_y d)))"

text \<open>The body of the \<open>try\<close> of \<open>detect\<close>.\<close>

definition detect_try :: "ndarray \<Rightarrow> http_call \<Rightarrow> py_exception + RoboflowResult" where
  "detect_try frame call =
     (case call of
        Raises e \<Rightarrow> Inl e
      | Responds body \<Rightarrow>
          (case parse_response body frame of
             Inl e \<Rightarrow> Inl e
           | Inr result \<Rightarrow>
               if detected result
               then (case detection result of
                       None \<Rightarrow> Inl AttributeError
                     | Some d \<Rightarrow>
                         (case log_detection d of
                            Inl e \<Rightarrow> Inl e
                          | Inr _ \<Rightarrow> Inr result))
               else Inr result))"

text \<open>
  \<open>RoboflowClient.detect(frame)\<close>, for a client with the given \<open>api_key\<close>. Without a key
  it answers at once. The three handlers (\<open>Timeout\<close>, \<open>RequestException\<close>,
  \<open>Exception\<close>) only log, and control reaches the final \<open>return\<close>.
  \<open>Inl\<close> would be an exception that leaves \<open>detect\<close>.
\<close>

definition detect :: "string option \<Rightarrow> ndarray \<Rightarrow> http_call \<Rightarrow> py_exception + RoboflowResult" where
  "detect api_key frame call =
     (if api_key = None \<or> api_key = Some []
      then Inr (no_detection frame)
      else (case detect_try frame call of
              Inr result \<Rightarrow> Inr result
            | Inl Timeout \<Rightarrow> Inr (no_detection frame)
            | Inl RequestException \<Rightarrow> Inr (no_detection frame)
            | Inl _ \<Rightarrow> Inr (no_detection frame)))"

section \<open>camera\_manager.py\<close>

definition QR_DETECTION_SCALE :: real where
  "QR_DETECTION_SCALE = 0.5"

definition TARGET_PAYLOAD :: string where
  "TARGET_PAYLOAD = ''ROBOT_R1''"

record ClassificationBBox =
  cb_x :: real
  cb_y :: real
  cb_width :: real
  cb_height :: real

text \<open>\<open>FrameData\<close>; its fields carry the prefix \<open>fd_\<close>.\<close>

record FrameData =
  fd_frame :: ndarray
  fd_detection :: "DetectedQR option"
  fd_robot_detected :: bool
  fd_qr_enabled :: bool
  fd_classification_detected :: bool
  fd_classification_bbox :: "ClassificationBBox option"
  fd_can_continue_moving :: bool
  fd_roboflow_enabled :: bool

text \<open>
  \<open>queue.Queue(maxsize)\<close>: the items waiting, oldest first. \<open>put_nowait\<close> raises
  \<open>Full\<close> when \<open>maxsize > 0\<close> and that many items wait; \<open>get\<close> with a timeout
  raises \<open>Empty\<close> when nothing waits.
\<close>

record 'a py_queue =
  maxsize :: int
  queued :: "'a list"

definition put_nowait :: "'a py_queue \<Rightarrow> 'a \<Rightarrow> py_exception + 'a py_queue" where
  "put_nowait q item =
     (if 0 < maxsize q \<and> maxsize q \<le> int (length (queued q))
      then Inl Full
      else Inr (q\<lparr>queued := queued q @ [item]\<rparr>))"

definition queue_get :: "'a py_queue \<Rightarrow> py_exception + 'a \<times> 'a py_queue" where
  "queue_get q =
     (case queued q of
        [] \<Rightarrow> Inl Empty
      | item # rest \<Rightarrow> Inr (item, q\<lparr>queued := rest\<rparr>))"

text \<open>
  The attributes of \<open>CameraWorker\<close> the pipeline reads and writes, without their leading
  underscore. The queue carries frames, and \<open>None\<close> as the signal to exit.
  \<open>roboflow_thread_alive\<close> is \<open>_roboflow_thread is not None and
  _roboflow_thread.is_alive()\<close>.
\<close>

record CameraWorker =
  smoother :: BoundingBoxSmoother
  roboflow_enabled :: bool
  qr_enabled :: bool
  roboflow_frame_counter :: int
  classification_detected :: bool
  classification_bbox :: "ClassificationBBox option"
  frames_without_classification :: int
  roboflow_queue :: "ndarray option py_queue"
  roboflow_thread_alive :: bool
  roboflow_thread_running :: bool

text \<open>\<open>CameraWorker.__init__\<close>.\<close>

definition camera_worker_init :: CameraWorker where
  "camera_worker_init =
     \<lparr>smoother = smoother_init 5 0.6,
      roboflow_enabled = False, qr_enabled = True,
      roboflow_frame_counter = 0,
      classification_detected = False, classification_bbox = None,
      frames_without_classification = 0,
      roboflow_queue = \<lparr>maxsize = 1, queued = []\<rparr>,
      roboflow_thread_alive = False, roboflow_thread_running = False\<rparr>"

text \<open>The setter of \<open>roboflow_enabled\<close>.\<close>

definition set_roboflow_enabled :: "CameraWorker \<Rightarrow> bool \<Rightarrow> CameraWorker" where
  "set_roboflow_enabled w v =
     (let w1 = w\<lparr>roboflow_enabled := v\<rparr>
      in if \<not> v
         then w1\<lparr>classification_detected := False, classification_bbox := None,
                 frames_without_classification := 0\<rparr>
         else w1)"

text \<open>The setter of \<open>qr_enabled\<close>.\<close>

definition set_qr_enabled :: "CameraWorker \<Rightarrow> bool \<Rightarrow> CameraWorker" where
  "set_qr_enabled w v =
     (let w1 = w\<lparr>qr_enabled := v\<rparr>
      in if \<not> v then w1\<lparr>smoother := reset (smoother w1)\<rparr> else w1)"

text \<open>
  What \<open>pyzbar.decode\<close> returns for one symbol: the bytes of its payload, which are the
  UTF-8 encoding of a string or are not valid UTF-8, and its rectangle in the downscaled
  image.
\<close>

datatype payload_bytes = Utf8 string | NotUtf8

record Rect =
  rect_left :: int
  rect_top :: int
  rect_width :: int
  rect_height :: int

record Decoded =
  qr_data :: payload_bytes
  qr_rect :: Rect

text \<open>\<open>qr.data.decode('utf-8')\<close>.\<close>

fun decode_utf8 :: "payload_bytes \<Rightarrow> py_exception + string" where
  "decode_utf8 (Utf8 s) = Inr s"
| "decode_utf8 NotUtf8 = Inl UnicodeDecodeError"

text \<open>The loop of \<open>_detect_qr\<close> over the decoded symbols.\<close>

fun find_target_payload :: "Decoded list \<Rightarrow> py_exception + DetectedQR option" where
  "find_target_payload [] = Inr None"
| "find_target_payload (qr # qrs) =
     (case decode_utf8 (qr_data qr) of
        Inl e \<Rightarrow> Inl e
      | Inr s \<Rightarrow>
          if s = TARGET_PAYLOAD
          then (let rect = qr_rect qr;
                    scale_inv = 1 / QR_DETECTION_SCALE
                in Inr (Some \<lparr>payload = s,
                      bounding_box =
                        \<lparr>bb_x = of_int (rect_left rect) * scale_inv,
                         bb_y = of_int (rect_top rect) * scale_inv,
                         bb_width = of_int (rect_width rect) * scale_inv,
                         bb_height = of_int (rect_height rect) * scale_inv\<rparr>\<rparr>))
          else find_target_payload qrs)"

text \<open>
  \<open>_detect_qr(frame)\<close>. The decoder argument is what downscaling, the conversion to
  grayscale and \<open>pyzbar.decode\<close> do with the frame: they raise, or deliver the symbols.
  The method has no handler, so \<open>Inl\<close> is an exception that leaves it.
\<close>

definition detect_qr ::
  "(ndarray \<Rightarrow> py_exception + Decoded list) \<Rightarrow> ndarray \<Rightarrow> py_exception + DetectedQR option" where
  "detect_qr decoder frame =
     (case decoder frame of
        Inl e \<Rightarrow> Inl e
      | Inr decoded \<Rightarrow> find_target_payload decoded)"

text \<open>
  The \<open>try\<close> around \<open>put_nowait(frame.copy())\<close> in \<open>run\<close>: \<open>queue.Full\<close> is caught
  and passed over.
\<close>

definition offer_frame :: "ndarray option py_queue \<Rightarrow> ndarray \<Rightarrow> py_exception + ndarray option py_queue" where
  "offer_frame q frame =
     (case put_nowait q (Some frame) of
        Inr q' \<Rightarrow> Inr q'
      | Inl e \<Rightarrow> if e = Full then Inr q else Inl e)"

text \<open>
  The block \<open>if roboflow_enabled:\<close> of \<open>run\<close> up to the queueing of the frame: start
  the worker thread when none is alive, count the frame, and offer every
  \<open>ROBOFLOW_FRAME_INTERVAL\<close>-th frame to the queue.
\<close>

definition forward_frame :: "CameraWorker \<Rightarrow> ndarray \<Rightarrow> py_exception + CameraWorker" where
  "forward_frame w frame =
     (let w1 = (if \<not> roboflow_thread_alive w
                then w\<lparr>roboflow_thread_running := True, roboflow_thread_alive := True\<rparr>
                else w);
          w2 = w1\<lparr>roboflow_frame_counter := roboflow_frame_counter w1 + 1\<rparr>
      in if roboflow_frame_counter w2 \<ge> ROBOFLOW_FRAME_INTERVAL
         then (let w3 = w2\<lparr>roboflow_frame_counter := 0\<rparr>
               in case offer_frame (roboflow_queue w3) frame of
                    Inl e \<Rightarrow> Inl e
                  | Inr q \<Rightarrow> Inr (w3\<lparr>roboflow_queue := q\<rparr>))
         else Inr w2)"

text \<open>What one pass through the body of the capture loop did.\<close>

datatype iteration = Skipped | CameraLost | Published FrameData

text \<open>
  One pass through the body of \<open>while self._running:\<close> in \<open>run\<close>. \<open>camera\<close> is the
  frame \<open>cap.read()\<close> delivered, \<open>None\<close> when it failed; the result is the worker, the
  count of failed reads and what was emitted. \<open>Inl\<close> is an exception that leaves \<open>run\<close>:
  the loop has no handler.
\<close>

definition run_iteration ::
  "CameraWorker \<Rightarrow> int \<Rightarrow> ndarray option \<Rightarrow> (ndarray \<Rightarrow> py_exception + Decoded list) \<Rightarrow>
     py_exception + CameraWorker \<times> int \<times> iteration" where
  "run_iteration w frames_failed camera decoder =
     (case camera of
        None \<Rightarrow>
          (let failed = frames_failed + 1
           in if failed > 30 then Inr (w, failed, CameraLost) else Inr (w, failed, Skipped))
      | Some raw \<Rightarrow>
          (let frame = flip_horizontal raw;
               qr_on = qr_enabled w
           in case (if qr_on then detect_qr decoder frame else Inr None) of
                Inl e \<Rightarrow> Inl e
              | Inr found \<Rightarrow>
                  (let (sm, smoothed) = update (smoother w) found;
                       w1 = w\<lparr>smoother := sm\<rparr>;
                       roboflow_on = roboflow_enabled w1;
                       robot_detected = (smoothed \<noteq> None)
                   in case (if roboflow_on then forward_frame w1 frame else Inr w1) of
                        Inl e \<Rightarrow> Inl e
                      | Inr w2 \<Rightarrow>
                          (let cls_detected = (if roboflow_on then classification_detected w2 else False);
                               cls_bbox = (if roboflow_on then classification_bbox w2 else None);
                               can_continue_moving =
                                 (if roboflow_on then robot_detected \<and> cls_detected
                                  else robot_detected)
                           in Inr (w2, 0,
                                Published
                                  \<lparr>fd_frame = frame, fd_detection = smoothed,
                                   fd_robot_detected = robot_detected, fd_qr_enabled = qr_on,
                                   fd_classification_detected = cls_detected,
                                   fd_classification_bbox = cls_bbox,
                                   fd_can_continue_moving = can_continue_moving,
                                   fd_roboflow_enabled = roboflow_on\<rparr>)))))"

text \<open>How a pass through a loop body ends: on to the next pass, or out of the loop.\<close>

datatype 'a flow = Continue 'a | Break 'a

text \<open>
  The block under \<open>with self._roboflow_result_lock:\<close> in \<open>_roboflow_worker\<close>. An
  exception raised inside it leaves the assignments made before it in place, so the
  worker is returned with the exception.
\<close>

definition publish_result :: "CameraWorker \<Rightarrow> RoboflowResult \<Rightarrow> (py_exception \<times> CameraWorker) + CameraWorker" where
  "publish_result w result =
     (if detected result \<and> detection result \<noteq> None
      then (let w1 = w\<lparr>classification_detected := True\<rparr>;
                w2 = w1\<lparr>frames_without_classification := 0\<rparr>
            in case detection result of
                 None \<Rightarrow> Inl (AttributeError, w2)
               | Some d \<Rightarrow>
                   (case bbox d of
                      Inl e \<Rightarrow> Inl (e, w2)
                    | Inr (x, y, width, height) \<Rightarrow>
                        Inr (w2\<lparr>classification_bbox :=
                                   Some \<lparr>cb_x = x, cb_y = y, cb_width = width, cb_height = height\<rparr>\<rparr>)))
      else (let w1 = w\<lparr>frames_without_classification := frames_without_classification w + 1\<rparr>
            in if frames_without_classification w1 \<ge> ROBOFLOW_PERSISTENCE_FRAMES
               then Inr (w1\<lparr>classification_detected := False, classification_bbox := None\<rparr>)
               else Inr w1))"

text \<open>
  The body of the \<open>try\<close> in the loop of \<open>_roboflow_worker\<close>. \<open>client\<close> is the
  \<open>detect\<close> of the configured client applied to the frame taken from the queue.
\<close>

definition worker_try ::
  "CameraWorker \<Rightarrow> (ndarray \<Rightarrow> py_exception + RoboflowResult) \<Rightarrow>
     (py_exception \<times> CameraWorker) + CameraWorker flow" where
  "worker_try w client =
     (case queue_get (roboflow_queue w) of
        Inl e \<Rightarrow> Inl (e, w)
      | Inr (item, q) \<Rightarrow>
          (let w1 = w\<lparr>roboflow_queue := q\<rparr>
           in case item of
                None \<Rightarrow> Inr (Break w1)
              | Some frame \<Rightarrow>
                  (case client frame of
                     Inl e \<Rightarrow> Inl (e, w1)
                   | Inr result \<Rightarrow>
                       (case publish_result w1 result of
                          Inl ew \<Rightarrow> Inl ew
                        | Inr w2 \<Rightarrow> Inr (Continue w2)))))"

text \<open>
  One pass through \<open>while self._roboflow_thread_running:\<close>. \<open>queue.Empty\<close> continues;
  every other \<open>Exception\<close> is logged and the loop goes on. \<open>Inl\<close> would be an exception
  that leaves the worker.
\<close>

definition worker_iteration ::
  "CameraWorker \<Rightarrow> (ndarray \<Rightarrow> py_exception + RoboflowResult) \<Rightarrow>
     py_exception + CameraWorker flow" where
  "worker_iteration w client =
     (if \<not> roboflow_thread_running w then Inr (Break w)
      else (case worker_try w client of
              Inr next \<Rightarrow> Inr next
            | Inl (e, w') \<Rightarrow> if e = Empty then Inr (Continue w') else Inr (Continue w')))"

section \<open>ui/main\_window.py\<close>

text \<open>
  The state of \<open>MainWindow\<close> the safety decision uses: the latest distance reading, the
  threshold, and what the safety banner shows (\<open>_safety_banner.can_continue\<close>).
\<close>

record MainWindow =
  current_distance :: int
  distance_threshold :: int
  banner_can_continue :: bool

text \<open>\<open>_on_distance_updated\<close> and \<open>_on_threshold_changed\<close>.\<close>

definition on_distance_updated :: "MainWindow \<Rightarrow> int \<Rightarrow> MainWindow" where
  "on_distance_updated m distance = m\<lparr>current_distance := distance\<rparr>"

definition on_threshold_changed :: "MainWindow \<Rightarrow> int \<Rightarrow> MainWindow" where
  "on_threshold_changed m v = m\<lparr>distance_threshold := v\<rparr>"

text \<open>The setter of \<open>SafetyStatusBanner.can_continue\<close> stores a value that differs.\<close>

definition set_banner :: "MainWindow \<Rightarrow> bool \<Rightarrow> MainWindow" where
  "set_banner m v = (if banner_can_continue m \<noteq> v then m\<lparr>banner_can_continue := v\<rparr> else m)"

text \<open>\<open>_on_frame_ready(frame_data)\<close>: the safety decision and the banner.\<close>

definition on_frame_ready :: "MainWindow \<Rightarrow> FrameData \<Rightarrow> MainWindow" where
  "on_frame_ready m frame_data =
     (let can_continue =
            (if current_distance m > distance_threshold m then True
             else fd_can_continue_moving frame_data)
      in set_banner m can_continue)"


section \<open>Sample inputs\<close>

definition sample_frame :: ndarray where
  "sample_frame = [[1, 2], [3, 4]]"

text \<open>
  Four decoders: one that raises, one that finds a symbol whose payload is not UTF-8, one
  that finds nothing, one that finds the target.
\<close>

definition failing_decoder :: "ndarray \<Rightarrow> py_exception + Decoded list" where
  "failing_decoder frame = Inl OtherException"

definition binary_decoder :: "ndarray \<Rightarrow> py_exception + Decoded list" where
  "binary_decoder frame =
     Inr [\<lparr>qr_data = NotUtf8,
           qr_rect = \<lparr>rect_left = 10, rect_top = 20, rect_width = 30, rect_height = 40\<rparr>\<rparr>]"

definition empty_decoder :: "ndarray \<Rightarrow> py_exception + Decoded list" where
  "empty_decoder frame = Inr []"

definition target_decoder :: "ndarray \<Rightarrow> py_exception + Decoded list" where
  "target_decoder frame =
     Inr [\<lparr>qr_data = Utf8 ''ROBOT_R1'',
           qr_rect = \<lparr>rect_left = 10, rect_top = 20, rect_width = 30, rect_height = 40\<rparr>\<rparr>]"

text \<open>A window whose target is far (200 over a threshold of 100), and one whose target is near.\<close>

definition far_window :: MainWindow where
  "far_window = \<lparr>current_distance = 200, distance_threshold = 100, banner_can_continue = False\<rparr>"

definition near_window :: MainWindow where
  "near_window = \<lparr>current_distance = 50, distance_threshold = 100, banner_can_continue = False\<rparr>"

text \<open>A frame on which neither the marker nor the classifier saw anything.\<close>

definition blind_frame_data :: FrameData where
  "blind_frame_data =
     \<lparr>fd_frame = sample_frame, fd_detection = None, fd_robot_detected = False,
      fd_qr_enabled = True, fd_classification_detected = False,
      fd_classification_bbox = None, fd_can_continue_moving = False,
      fd_roboflow_enabled = True\<rparr>"

text \<open>
  A worker with the classifier enabled, a frame waiting in the queue, the frame counter
  one short of the interval, and a detection published two misses ago.
\<close>

definition busy_worker :: CameraWorker where
  "busy_worker =
     \<lparr>smoother = smoother_init 5 0.6,
      roboflow_enabled = True, qr_enabled = True,
      roboflow_frame_counter = 2,
      classification_detected = True,
      classification_bbox = Some \<lparr>cb_x = 1, cb_y = 2, cb_width = 3, cb_height = 4\<rparr>,
      frames_without_classification = 2,
      roboflow_queue = \<lparr>maxsize = 1, queued = [Some sample_frame]\<rparr>,
      roboflow_thread_alive = True, roboflow_thread_running = True\<rparr>"

text \<open>A client whose request always times out, and one that always sees a laptop.\<close>

definition timeout_client :: "ndarray \<Rightarrow> py_exception + RoboflowResult" where
  "timeout_client frame = detect (Some ''key'') frame (Raises Timeout)"

definition laptop_client :: "ndarray \<Rightarrow> py_exception + RoboflowResult" where
  "laptop_client frame =
     detect (Some ''key'') frame
       (Responds (JObj [(''outputs'',
          JArr [JObj [(''predictions'',
            JObj [(''predictions'',
              JArr [JObj [(''class'', JStr ''laptop''), (''confidence'', JFloat 0.9),
                          (''x'', JInt 10), (''y'', JInt 20),
                          (''width'', JInt 4), (''height'', JInt 8)]])])]])]))"

text \<open>
  A client whose reply is a laptop with the width given as the string \<open>"4"\<close>, not a
  number.
\<close>

definition text_width_client :: "ndarray \<Rightarrow> py_exception + RoboflowResult" where
  "text_width_client frame =
     detect (Some ''key'') frame
       (Responds (JObj [(''outputs'',
          JArr [JObj [(''predictions'',
            JObj [(''predictions'',
              JArr [JObj [(''class'', JStr ''laptop''), (''confidence'', JFloat 0.9),
                          (''x'', JInt 10), (''y'', JInt 20),
                          (''width'', JStr ''4''), (''height'', JInt 8)]])])]])]))"

section \<open>The detection smoother: facts about \<open>update\<close>\<close>

lemma update_detected:
  "update s (Some d) =
     (s\<lparr>frames_without_detection := 0, last_payload := Some (payload d),
        smoothed_box := Some (snd (smooth_box s (bounding_box d)))\<rparr>,
      Some \<lparr>payload = payload d, bounding_box = snd (smooth_box s (bounding_box d))\<rparr>)"
  by (simp add: update_def smooth_box_def Let_def split: option.splits)

lemma update_missed_hold:
  assumes "smoothed_box s = Some b" "last_payload s = Some q"
    and "frames_without_detection s + 1 < persistence_frames s"
  shows "update s None =
     (s\<lparr>frames_without_detection := frames_without_detection s + 1\<rparr>,
      Some \<lparr>payload = q, bounding_box = b\<rparr>)"
  using assms by (simp add: update_def Let_def)

lemma update_missed_clear:
  assumes "persistence_frames s \<le> frames_without_detection s + 1"
  shows "update s None =
     (s\<lparr>frames_without_detection := frames_without_detection s + 1,
        smoothed_box := None, last_payload := None\<rparr>, None)"
  using assms by (simp add: update_def Let_def)

lemma update_missed_empty:
  assumes "smoothed_box s = None \<or> last_payload s = None"
  shows "snd (update s None) = None"
  using assms by (auto simp add: update_def Let_def split: option.splits)

lemma update_missed_empty_state:
  assumes "smoothed_box s = None" "last_payload s = None"
  shows "smoothed_box (fst (update s None)) = None \<and> last_payload (fst (update s None)) = None"
  using assms by (simp add: update_def Let_def)

lemma miss_n_hold:
  assumes "smoothed_box s = Some b" "last_payload s = Some q"
    and "frames_without_detection s = 0"
  shows "int k < persistence_frames s \<Longrightarrow> miss_n k s = s\<lparr>frames_without_detection := int k\<rparr>"
proof (induction k)
  case 0
  from assms(3) show ?case by simp
next
  case (Suc k)
  then have ih: "miss_n k s = s\<lparr>frames_without_detection := int k\<rparr>" by simp
  from Suc.prems assms show ?case
    by (simp add: ih update_missed_hold [where b = b and q = q])
qed

lemma miss_n_empty:
  assumes "smoothed_box s = None" "last_payload s = None"
  shows "smoothed_box (miss_n n s) = None \<and> last_payload (miss_n n s) = None"
  using assms by (induction n) (simp_all add: update_missed_empty_state)



text \<open>
  C3. After any call \<open>update(detection)\<close> with a detection, made in any state, the
  \<open>k\<close>-th of the consecutive misses that follow returns the detection that call returned
  (same payload, same smoothed box) and leaves \<open>smoothed_box\<close> and \<open>last_payload\<close> as
  they were, for every \<open>1 \<le> k < persistence_frames\<close>; the miss that brings the counter
  to \<open>persistence_frames\<close> returns nothing and clears both fields. In a freshly
  constructed smoother, which has seen no detection, every miss returns nothing.
\<close>

theorem smoother_holds_then_clears:
  "(let s1 = fst (update s (Some d)); out1 = snd (update s (Some d)) in
     (\<exists>b. out1 = Some \<lparr>payload = payload d, bounding_box = b\<rparr> \<and> smoothed_box s1 = Some b) \<and>
     last_payload s1 = Some (payload d) \<and>
     (\<forall>k. 1 \<le> k \<and> int k < persistence_frames s \<longrightarrow>
        snd (update (miss_n (k - 1) s1) None) = out1 \<and>
        smoothed_box (miss_n k s1) = smoothed_box s1 \<and>
        last_payload (miss_n k s1) = last_payload s1 \<and>
        frames_without_detection (miss_n k s1) = int k) \<and>
     (\<forall>k. 1 \<le> k \<and> int k = persistence_frames s \<longrightarrow>
        snd (update (miss_n (k - 1) s1) None) = None \<and>
        smoothed_box (miss_n k s1) = None \<and>
        last_payload (miss_n k s1) = None)) \<and>
   (\<forall>p a n. snd (update (miss_n n (smoother_init p a)) None) = None)"
proof -
  define b where "b = snd (smooth_box s (bounding_box d))"
  define s1 where "s1 = fst (update s (Some d))"
  define out1 where "out1 = snd (update s (Some d))"
  have out1: "out1 = Some \<lparr>payload = payload d, bounding_box = b\<rparr>"
    by (simp add: out1_def b_def update_detected)
  have box1: "smoothed_box s1 = Some b" and pay1: "last_payload s1 = Some (payload d)"
    and cnt1: "frames_without_detection s1 = 0" and per1: "persistence_frames s1 = persistence_frames s"
    by (simp_all add: s1_def b_def update_detected)
  have state: "miss_n k s1 = s1\<lparr>frames_without_detection := int k\<rparr>"
    if "int k < persistence_frames s" for k
    using miss_n_hold [OF box1 pay1 cnt1] that per1 by simp
  have hold: "snd (update (miss_n (k - 1) s1) None) = out1 \<and>
        smoothed_box (miss_n k s1) = smoothed_box s1 \<and>
        last_payload (miss_n k s1) = last_payload s1 \<and>
        frames_without_detection (miss_n k s1) = int k"
    if "1 \<le> k" "int k < persistence_frames s" for k
  proof -
    from that obtain j where k: "k = Suc j" by (cases k) simp_all
    with that have "int j < persistence_frames s" by simp
    then have prev: "miss_n j s1 = s1\<lparr>frames_without_detection := int j\<rparr>"
      by (rule state)
    have "update (miss_n j s1) None = (s1\<lparr>frames_without_detection := int k\<rparr>, out1)"
      using that box1 pay1 per1
      by (simp add: k prev out1 update_missed_hold [where b = b and q = "payload d"])
    then show ?thesis using state [OF that(2)] by (simp add: k)
  qed
  have clear: "snd (update (miss_n (k - 1) s1) None) = None \<and>
        smoothed_box (miss_n k s1) = None \<and> last_payload (miss_n k s1) = None"
    if "1 \<le> k" "int k = persistence_frames s" for k
  proof -
    from that obtain j where k: "k = Suc j" by (cases k) simp_all
    with that have "int j < persistence_frames s" by simp
    then have prev: "miss_n j s1 = s1\<lparr>frames_without_detection := int j\<rparr>"
      by (rule state)
    have "update (miss_n j s1) None =
        (s1\<lparr>frames_without_detection := int k, smoothed_box := None, last_payload := None\<rparr>, None)"
      using that per1 prev by (simp add: k update_missed_clear)
    then show ?thesis by (simp add: k)
  qed
  have fresh: "snd (update (miss_n n (smoother_init p a)) None) = None" for p a n
  proof -
    have "smoothed_box (miss_n n (smoother_init p a)) = None"
      by (rule miss_n_empty [THEN conjunct1]) (simp_all add: smoother_init_def)
    then show ?thesis by (simp add: update_missed_empty)
  qed
  from out1 box1 pay1 hold clear fresh show ?thesis
    unfolding Let_def s1_def [symmetric] out1_def [symmetric] by blast
qed

theorem smoother_holds_then_clears_witness:
  "snd (update (miss_n 0 (fst (update sample_smoother (Some sample_qr)))) None) =
     snd (update sample_smoother (Some sample_qr)) \<and>
   snd (update (miss_n 1 (fst (update sample_smoother (Some sample_qr)))) None) =
     snd (update sample_smoother (Some sample_qr)) \<and>
   snd (update (miss_n 2 (fst (update sample_smoother (Some sample_qr)))) None) = None \<and>
   smoothed_box (miss_n 3 (fst (update sample_smoother (Some sample_qr)))) = None \<and>
   last_payload (miss_n 3 (fst (update sample_smoother (Some sample_qr)))) = None"
proof -
  have p: "persistence_frames sample_smoother = 3"
    by (simp add: sample_smoother_def)
  note c3 = smoother_holds_then_clears [of sample_smoother sample_qr, unfolded Let_def p]
  from c3 have hold: "1 \<le> k \<and> int k < 3 \<longrightarrow>
      snd (update (miss_n (k - 1) (fst (update sample_smoother (Some sample_qr)))) None) =
        snd (update sample_smoother (Some sample_qr))" for k
    by blast
  from c3 have clear: "1 \<le> k \<and> int k = 3 \<longrightarrow>
      snd (update (miss_n (k - 1) (fst (update sample_smoother (Some sample_qr)))) None) = None \<and>
      smoothed_box (miss_n k (fst (update sample_smoother (Some sample_qr)))) = None \<and>
      last_payload (miss_n k (fst (update sample_smoother (Some sample_qr)))) = None" for k
    by blast
  from hold [of 1] hold [of 2] clear [of 3] show ?thesis
    by (simp add: numeral_2_eq_2 numeral_3_eq_3 del: miss_n.simps)
qed

section \<open>The detection smoother: a box is stored exactly when a payload is\<close>

lemma inv_init: "box_iff_payload (smoother_init p a)"
  by (simp add: box_iff_payload_def smoother_init_def)

lemma inv_update: "box_iff_payload s \<Longrightarrow> box_iff_payload (fst (update s det))"
proof (cases det)
  case None
  assume "box_iff_payload s"
  with None show ?thesis
    by (auto simp add: box_iff_payload_def update_def Let_def split: option.splits)
next
  case (Some d)
  then show ?thesis by (simp add: box_iff_payload_def update_detected)
qed

lemma inv_reset: "box_iff_payload (reset s)"
  by (simp add: box_iff_payload_def reset_def)

lemma inv_set_alpha: "box_iff_payload s \<Longrightarrow> box_iff_payload (set_alpha s v)"
  by (simp add: box_iff_payload_def set_alpha_def)

lemma inv_call: "box_iff_payload s \<Longrightarrow> box_iff_payload (apply_call s c)"
  by (cases c) (simp_all add: inv_update inv_reset inv_set_alpha)

lemma inv_calls: "box_iff_payload s \<Longrightarrow> box_iff_payload (smoother_calls s cs)"
  unfolding smoother_calls_def by (induction cs arbitrary: s) (simp_all add: inv_call)

text \<open>
  C10. \<open>smoothed_box\<close> is \<open>None\<close> exactly when \<open>last_payload\<close> is: this holds in the
  freshly constructed smoother, every \<open>update\<close> (with or without a detection) preserves
  it, \<open>reset\<close> establishes it, and so it holds after any sequence of calls on a fresh
  smoother. There the guard of the hold branch, which tests both fields, is true exactly
  when either field alone is set.
\<close>

theorem box_iff_payload_invariant:
  "box_iff_payload (smoother_init p a) \<and>
   (box_iff_payload s \<longrightarrow> box_iff_payload (fst (update s det))) \<and>
   box_iff_payload (reset s) \<and>
   box_iff_payload (smoother_calls (smoother_init p a) cs) \<and>
   ((smoothed_box (smoother_calls (smoother_init p a) cs) \<noteq> None \<and>
     last_payload (smoother_calls (smoother_init p a) cs) \<noteq> None) =
    (smoothed_box (smoother_calls (smoother_init p a) cs) \<noteq> None)) \<and>
   ((smoothed_box (smoother_calls (smoother_init p a) cs) \<noteq> None \<and>
     last_payload (smoother_calls (smoother_init p a) cs) \<noteq> None) =
    (last_payload (smoother_calls (smoother_init p a) cs) \<noteq> None))"
proof -
  have reach: "box_iff_payload (smoother_calls (smoother_init p a) cs)"
    by (rule inv_calls) (rule inv_init)
  then have "(smoothed_box (smoother_calls (smoother_init p a) cs) = None) =
    (last_payload (smoother_calls (smoother_init p a) cs) = None)"
    by (simp add: box_iff_payload_def)
  with reach show ?thesis
    by (auto simp add: inv_init inv_update inv_reset)
qed

theorem box_iff_payload_invariant_witness:
  "box_iff_payload sample_smoother \<and> box_iff_payload (fst (update sample_smoother None))"
proof -
  have "box_iff_payload sample_smoother"
    by (simp add: box_iff_payload_def sample_smoother_def)
  with box_iff_payload_invariant [of 3 "1 / 2" sample_smoother None "[]"] show ?thesis by simp
qed

section \<open>The blend in exact arithmetic\<close>


lemma hit_n_alpha: "smoothing_alpha (hit_n n s d) = smoothing_alpha s"
  by (induction n) (simp_all add: update_detected)

lemma hit_step_some:
  assumes "smoothed_box s = Some b"
  shows "smoothed_box (fst (update s (Some d))) =
     Some \<lparr>bb_x = smoothing_alpha s * bb_x (bounding_box d) + (1 - smoothing_alpha s) * bb_x b,
           bb_y = smoothing_alpha s * bb_y (bounding_box d) + (1 - smoothing_alpha s) * bb_y b,
           bb_width = smoothing_alpha s * bb_width (bounding_box d) + (1 - smoothing_alpha s) * bb_width b,
           bb_height = smoothing_alpha s * bb_height (bounding_box d) + (1 - smoothing_alpha s) * bb_height b\<rparr>"
  using assms by (simp add: update_detected smooth_box_def Let_def)

lemma hit_step_none:
  assumes "smoothed_box s = None"
  shows "smoothed_box (fst (update s (Some d))) = Some (bounding_box d)"
  using assms by (simp add: update_detected smooth_box_def)

lemma blend_error: "(a * t + (1 - a) * v) - t = (1 - a) * (v - t)" for a t v :: real
  by (simp add: algebra_simps)

lemma blend_closer:
  fixes a t v :: real
  assumes "0 < a" "a < 1" "v \<noteq> t"
  shows "\<bar>(a * t + (1 - a) * v) - t\<bar> < \<bar>v - t\<bar>"
proof -
  have "\<bar>(a * t + (1 - a) * v) - t\<bar> = (1 - a) * \<bar>v - t\<bar>"
    using assms by (simp add: blend_error abs_mult)
  also have "\<dots> < 1 * \<bar>v - t\<bar>"
    using assms by (intro mult_strict_right_mono) simp_all
  finally show ?thesis by simp
qed


lemma geometric_error_vanishes:
  fixes e :: "nat \<Rightarrow> real" and c :: real
  assumes c: "0 \<le> c" "c < 1" and step: "\<And>n. e (Suc n) = c * e n"
  shows "(\<lambda>n. \<bar>e n\<bar>) \<longlonglongrightarrow> 0"
proof -
  have closed: "e n = c ^ n * e 0" for n
    by (induction n) (simp_all add: step)
  have "(\<lambda>n. c ^ n) \<longlonglongrightarrow> 0"
    using c by (rule LIMSEQ_realpow_zero)
  then have "(\<lambda>n. c ^ n * e 0) \<longlonglongrightarrow> 0"
    by (rule tendsto_mult_left_zero)
  then have "e \<longlonglongrightarrow> 0"
    by (simp add: closed [symmetric])
  then show ?thesis by (rule tendsto_rabs_zero)
qed

lemma hit_n_stores_box: "\<exists>b. smoothed_box (hit_n (Suc n) s d) = Some b"
  by (simp add: update_detected)

text \<open>
  With every operation exact and \<open>0 < alpha < 1\<close>, feeding the same detection again and
  again moves every coordinate of \<open>smoothed_box\<close> strictly closer to its target at each
  step where they differ, keeps it there once they agree, and the distance tends to 0.
  The interpreter rounds every operation, and there this fails; see the next section.
\<close>

lemma exact_blend_converges:
  assumes "0 < smoothing_alpha s" and "smoothing_alpha s < 1"
  shows
    "(\<forall>n b b'. smoothed_box (hit_n n s d) = Some b \<and> smoothed_box (hit_n (Suc n) s d) = Some b' \<longrightarrow>
        closer (bb_x (bounding_box d)) (bb_x b) (bb_x b') \<and>
        closer (bb_y (bounding_box d)) (bb_y b) (bb_y b') \<and>
        closer (bb_width (bounding_box d)) (bb_width b) (bb_width b') \<and>
        closer (bb_height (bounding_box d)) (bb_height b) (bb_height b')) \<and>
     (\<exists>bs. (\<forall>n. smoothed_box (hit_n (Suc n) s d) = Some (bs n)) \<and>
        (\<lambda>n. \<bar>bb_x (bs n) - bb_x (bounding_box d)\<bar>) \<longlonglongrightarrow> 0 \<and>
        (\<lambda>n. \<bar>bb_y (bs n) - bb_y (bounding_box d)\<bar>) \<longlonglongrightarrow> 0 \<and>
        (\<lambda>n. \<bar>bb_width (bs n) - bb_width (bounding_box d)\<bar>) \<longlonglongrightarrow> 0 \<and>
        (\<lambda>n. \<bar>bb_height (bs n) - bb_height (bounding_box d)\<bar>) \<longlonglongrightarrow> 0)"
proof -
  define a where "a = smoothing_alpha s"
  define t where "t = bounding_box d"
  have a: "0 < a" "a < 1" using assms by (simp_all add: a_def)
  have step: "smoothed_box (hit_n (Suc n) s d) =
      Some \<lparr>bb_x = a * bb_x t + (1 - a) * bb_x b, bb_y = a * bb_y t + (1 - a) * bb_y b,
            bb_width = a * bb_width t + (1 - a) * bb_width b,
            bb_height = a * bb_height t + (1 - a) * bb_height b\<rparr>"
    if "smoothed_box (hit_n n s d) = Some b" for n b
    using hit_step_some [OF that, of d] by (simp add: hit_n_alpha a_def t_def)
  have near: "closer u v (a * u + (1 - a) * v)" for u v :: real
    using a blend_closer [of a v u] by (simp add: closer_def algebra_simps)
  have decrease: "closer (bb_x t) (bb_x b) (bb_x b') \<and> closer (bb_y t) (bb_y b) (bb_y b') \<and>
      closer (bb_width t) (bb_width b) (bb_width b') \<and>
      closer (bb_height t) (bb_height b) (bb_height b')"
    if "smoothed_box (hit_n n s d) = Some b" "smoothed_box (hit_n (Suc n) s d) = Some b'" for n b b'
    using step [OF that(1)] that(2) by (auto simp add: near)
  define bs where "bs n = the (smoothed_box (hit_n (Suc n) s d))" for n
  have bs: "smoothed_box (hit_n (Suc n) s d) = Some (bs n)" for n
    using hit_n_stores_box [of n s d] by (auto simp add: bs_def)
  have next_box: "bs (Suc n) =
      \<lparr>bb_x = a * bb_x t + (1 - a) * bb_x (bs n), bb_y = a * bb_y t + (1 - a) * bb_y (bs n),
       bb_width = a * bb_width t + (1 - a) * bb_width (bs n),
       bb_height = a * bb_height t + (1 - a) * bb_height (bs n)\<rparr>" for n
    using step [OF bs [of n]] bs [of "Suc n"] by simp
  have c: "0 \<le> 1 - a" "1 - a < 1" using a by simp_all
  have "(\<lambda>n. \<bar>bb_x (bs n) - bb_x t\<bar>) \<longlonglongrightarrow> 0"
    by (rule geometric_error_vanishes [OF c]) (simp add: next_box blend_error)
  moreover have "(\<lambda>n. \<bar>bb_y (bs n) - bb_y t\<bar>) \<longlonglongrightarrow> 0"
    by (rule geometric_error_vanishes [OF c]) (simp add: next_box blend_error)
  moreover have "(\<lambda>n. \<bar>bb_width (bs n) - bb_width t\<bar>) \<longlonglongrightarrow> 0"
    by (rule geometric_error_vanishes [OF c]) (simp add: next_box blend_error)
  moreover have "(\<lambda>n. \<bar>bb_height (bs n) - bb_height t\<bar>) \<longlonglongrightarrow> 0"
    by (rule geometric_error_vanishes [OF c]) (simp add: next_box blend_error)
  ultimately have "\<exists>bs. (\<forall>n. smoothed_box (hit_n (Suc n) s d) = Some (bs n)) \<and>
        (\<lambda>n. \<bar>bb_x (bs n) - bb_x t\<bar>) \<longlonglongrightarrow> 0 \<and>
        (\<lambda>n. \<bar>bb_y (bs n) - bb_y t\<bar>) \<longlonglongrightarrow> 0 \<and>
        (\<lambda>n. \<bar>bb_width (bs n) - bb_width t\<bar>) \<longlonglongrightarrow> 0 \<and>
        (\<lambda>n. \<bar>bb_height (bs n) - bb_height t\<bar>) \<longlonglongrightarrow> 0"
    using bs by blast
  with decrease show ?thesis unfolding t_def by blast
qed

section \<open>Rounding to the nearest double\<close>

text \<open>
  \<open>exponent_from\<close> finds the binade, so \<open>quantum\<close> is the spacing of the doubles around
  a value, and rounding moves a value below \<open>2^1024\<close> by at most half of that: by at
  most \<open>2^-53\<close> of its magnitude, or by \<open>2^-1075\<close>.
\<close>

lemma two_powi_double: "(2::real) powi (n + 1) = 2 * 2 powi n"
  by (simp add: power_int_add)

lemma two_powi_half: "(2::real) powi (n - 1) = 2 powi n / 2"
  by (simp add: power_int_diff)

lemma two_powi_less_cancel: "(2::real) powi m < 2 powi n \<Longrightarrow> m < n"
  by (rule ccontr) (simp add: not_less power_int_increasing leD)

lemma exponent_from_found:
  "2 powi n \<le> x \<Longrightarrow> x < 2 powi (n + 1) \<Longrightarrow> nat \<bar>n\<bar> \<le> k \<Longrightarrow> exponent_from k x e = e + n"
proof (induction k arbitrary: x e n)
  case 0
  then show ?case by simp
next
  case (Suc k)
  show ?case
  proof (cases "2 \<le> x")
    case True
    with Suc.prems(2) have "(2::real) powi 1 < 2 powi (n + 1)" by simp
    then have n: "1 \<le> n" using two_powi_less_cancel [of 1 "n + 1"] by simp
    have "2 powi (n - 1) \<le> x / 2" "x / 2 < 2 powi (n - 1 + 1)"
      using Suc.prems(1,2) by (simp_all add: two_powi_half two_powi_double)
    moreover have "nat \<bar>n - 1\<bar> \<le> k" using n Suc.prems(3) by simp
    ultimately have "exponent_from k (x / 2) (e + 1) = e + 1 + (n - 1)"
      by (rule Suc.IH)
    with True show ?thesis by simp
  next
    case False
    show ?thesis
    proof (cases "x < 1")
      case True
      with Suc.prems(1) have "(2::real) powi n < 2 powi 0" by simp
      then have n: "n < 0" by (rule two_powi_less_cancel)
      have "2 powi (n + 1) \<le> x * 2" "x * 2 < 2 powi (n + 1 + 1)"
        using Suc.prems(1,2) two_powi_double [of n] two_powi_double [of "n + 1"] by linarith+
      moreover have "nat \<bar>n + 1\<bar> \<le> k" using n Suc.prems(3) by simp
      ultimately have "exponent_from k (x * 2) (e - 1) = e - 1 + (n + 1)"
        by (rule Suc.IH)
      with True False show ?thesis by simp
    next
      case x: False
      from False Suc.prems(1) have "(2::real) powi n < 2 powi 1" by simp
      then have "n < 1" by (rule two_powi_less_cancel)
      moreover from x Suc.prems(2) have "(2::real) powi 0 < 2 powi (n + 1)" by simp
      then have "0 < n + 1" by (rule two_powi_less_cancel)
      ultimately have "n = 0" by simp
      with False x show ?thesis by simp
    qed
  qed
qed

lemma exponent_from_tiny:
  "0 \<le> x \<Longrightarrow> x < 2 powi (- int k) \<Longrightarrow> exponent_from k x e = e - int k"
proof (induction k arbitrary: x e)
  case 0
  then show ?case by simp
next
  case (Suc k)
  have "(2::real) powi (- int (Suc k)) \<le> 2 powi 0"
    by (rule power_int_increasing) simp_all
  with Suc.prems have small: "x < 1" by simp
  have "- int k = - int (Suc k) + 1" by simp
  then have "(2::real) powi (- int k) = 2 * 2 powi (- int (Suc k))"
    by (metis two_powi_double)
  with Suc.prems have "0 \<le> x * 2" "x * 2 < 2 powi (- int k)" by simp_all
  then have "exponent_from k (x * 2) (e - 1) = e - 1 - int k" by (rule Suc.IH)
  with small show ?case by simp
qed

text \<open>Every positive real lies in exactly one binade.\<close>

lemma binade_exists:
  fixes x :: real
  assumes "0 < x"
  shows "\<exists>n. 2 powi n \<le> x \<and> x < 2 powi (n + 1)"
proof -
  have p: "(2::real) powr real_of_int m = 2 powi m" for m
    by (rule powr_real_of_int') simp_all
  have "\<lfloor>log 2 x\<rfloor> = \<lfloor>log 2 x\<rfloor>" ..
  then have "2 powr real_of_int \<lfloor>log 2 x\<rfloor> \<le> x \<and> x < 2 powr real_of_int (\<lfloor>log 2 x\<rfloor> + 1)"
    using assms by (subst (asm) floor_log_eq_powr_iff) simp_all
  then have "2 powi \<lfloor>log 2 x\<rfloor> \<le> x \<and> x < 2 powi (\<lfloor>log 2 x\<rfloor> + 1)"
    by (simp only: p)
  then show ?thesis ..
qed

lemma quantum_in_binade:
  assumes "2 powi n \<le> \<bar>x\<bar>" "\<bar>x\<bar> < 2 powi (n + 1)" "n \<le> 1100"
  shows "quantum x = 2 powi (max n (- 1022) - 52)"
proof (cases "- 1100 \<le> n")
  case True
  with assms(3) have "nat \<bar>n\<bar> \<le> 1100" by simp
  with assms(1,2) have "binade x = n"
    unfolding binade_def using exponent_from_found [of n "\<bar>x\<bar>" 1100 0] by simp
  then show ?thesis by (simp add: quantum_def)
next
  case False
  then have "n + 1 \<le> - 1100" by simp
  then have "(2::real) powi (n + 1) \<le> 2 powi (- 1100)"
    by (rule power_int_increasing) simp
  with assms(2) have "\<bar>x\<bar> < 2 powi (- int 1100)" by simp
  then have "binade x = - 1100"
    unfolding binade_def using exponent_from_tiny [of "\<bar>x\<bar>" 1100 0] by simp
  with False show ?thesis by (simp add: quantum_def)
qed

lemma quantum_zero: "quantum 0 = 2 powi (- 1074)"
proof -
  have "binade 0 = - 1100"
    unfolding binade_def using exponent_from_tiny [of 0 1100 0] by simp
  then show ?thesis by (simp add: quantum_def)
qed

lemma round_half_even_near: "\<bar>of_int (round_half_even y) - y\<bar> \<le> 1 / 2"
proof -
  have "of_int \<lfloor>y\<rfloor> \<le> y" "y < of_int \<lfloor>y\<rfloor> + 1" by linarith+
  then show ?thesis
    by (auto simp add: round_half_even_def Let_def)
qed

lemma round_half_even_zero: "round_half_even 0 = 0"
  by (simp add: round_half_even_def)

lemma round_double_zero: "round_double 0 = 0"
  by (simp add: round_double_def round_half_even_zero)

lemma round_double_error:
  assumes "\<bar>x\<bar> < 2 powi 1024"
  shows "\<bar>round_double x - x\<bar> \<le> \<bar>x\<bar> / 2 ^ 53 + 1 / 2 ^ 1075"
proof (cases "x = 0")
  case True
  then show ?thesis by (simp add: round_double_zero)
next
  case False
  then obtain n where n: "2 powi n \<le> \<bar>x\<bar>" "\<bar>x\<bar> < 2 powi (n + 1)"
    using binade_exists [of "\<bar>x\<bar>"] by auto
  from n(1) assms have "(2::real) powi n < 2 powi 1024" by simp
  then have "n < 1024" by (rule two_powi_less_cancel)
  then have q: "quantum x = 2 powi (max n (- 1022) - 52)"
    using quantum_in_binade [OF n] by simp
  define q where "q = quantum x"
  have qpos: "0 < q" by (simp add: q_def quantum_def)
  have "round_double x - x = (of_int (round_half_even (x / q)) - x / q) * q"
    using qpos by (simp add: round_double_def q_def algebra_simps)
  then have "\<bar>round_double x - x\<bar> = \<bar>of_int (round_half_even (x / q)) - x / q\<bar> * q"
    using qpos by (simp add: abs_mult)
  also have "\<dots> \<le> 1 / 2 * q"
    using qpos round_half_even_near [of "x / q"] by (intro mult_right_mono) simp_all
  finally have half: "\<bar>round_double x - x\<bar> \<le> q / 2" by simp
  show ?thesis
  proof (cases "- 1022 \<le> n")
    case True
    then have "q = 2 powi n / 2 ^ 52"
      using q by (simp add: q_def power_int_diff)
    with n(1) have "q \<le> \<bar>x\<bar> / 2 ^ 52" by (simp add: divide_right_mono)
    with half show ?thesis by simp
  next
    case False
    then have "q = 2 powi (- 1074)" using q by (simp add: q_def)
    then have "q / 2 = 1 / 2 ^ 1075" by (simp add: power_int_minus_divide)
    with half have "\<bar>round_double x - x\<bar> \<le> 1 / 2 ^ 1075" by (simp only:)
    moreover have "0 \<le> \<bar>x\<bar> / 2 ^ 53" by simp
    ultimately show ?thesis by linarith
  qed
qed

section \<open>The detection smoother under a constant input, in double precision\<close>

text \<open>
  One rounded blend differs from the exact \<open>alpha * t + (1 - alpha) * v\<close> by at most
  \<open>rounding_slack t v\<close>, so it shrinks the distance to the target by the factor
  \<open>1 - alpha\<close> up to that.
\<close>

lemma blend_double_error:
  assumes a: "0 < a" "a < 1" and t: "\<bar>t\<bar> \<le> 2 ^ 1000" and b: "\<bar>b\<bar> \<le> 2 ^ 1000"
  shows "\<bar>blend_double a t b - (a * t + (1 - a) * b)\<bar> \<le> (\<bar>t\<bar> + \<bar>b\<bar>) / 2 ^ 49 + 1 / 2 ^ 1072"
proof -
  define u :: real where "u = 1 / 2 ^ 53"
  define h :: real where "h = 1 / 2 ^ 1075"
  define R :: real where "R = 2 powi 1024"
  define M :: real where "M = 2 ^ 1000"
  have u: "0 \<le> u" "u \<le> 1" and h: "0 \<le> h" "h \<le> u" "u + h \<le> 1"
    by (simp_all add: u_def h_def)
  have R: "1 < R" "7 * M + 2 < R" by (simp_all add: R_def M_def)
  have M: "\<bar>t\<bar> \<le> M" "\<bar>b\<bar> \<le> M" using t b by (simp_all add: M_def)
  have rd: "\<bar>round_double x - x\<bar> \<le> u * \<bar>x\<bar> + h" if "\<bar>x\<bar> < R" for x
    using round_double_error [of x] that by (simp add: u_def h_def R_def)
  define c where "c = round_double (1 - a)"
  define p where "p = round_double (a * t)"
  define q where "q = round_double (c * b)"
  define s where "s = p + q"
  define r where "r = round_double s"
  define E where "E = a * t + (1 - a) * b"
  have r: "blend_double a t b = r"
    by (simp add: blend_double_def r_def s_def p_def q_def c_def)
  \<comment> \<open>the factor \<open>1 - alpha\<close>\<close>
  have "\<bar>1 - a\<bar> < R" using a R by simp
  then have "\<bar>c - (1 - a)\<bar> \<le> u * \<bar>1 - a\<bar> + h" unfolding c_def by (rule rd)
  moreover have "u * \<bar>1 - a\<bar> \<le> u * 1"
    using a u by (intro mult_left_mono) simp_all
  ultimately have c: "\<bar>c - (1 - a)\<bar> \<le> u + h" by simp
  with a h have c2: "\<bar>c\<bar> \<le> 2" by linarith
  \<comment> \<open>the two products\<close>
  have at: "\<bar>a * t\<bar> \<le> \<bar>t\<bar>"
    using a mult_right_mono [of a 1 "\<bar>t\<bar>"] by (simp add: abs_mult)
  then have "\<bar>a * t\<bar> < R" using M R by linarith
  then have "\<bar>p - a * t\<bar> \<le> u * \<bar>a * t\<bar> + h" unfolding p_def by (rule rd)
  moreover have "u * \<bar>a * t\<bar> \<le> u * \<bar>t\<bar>"
    using at u by (intro mult_left_mono) simp_all
  ultimately have p: "\<bar>p - a * t\<bar> \<le> u * \<bar>t\<bar> + h" by simp
  have cb: "\<bar>c * b\<bar> \<le> 2 * \<bar>b\<bar>"
    using c2 mult_right_mono [of "\<bar>c\<bar>" 2 "\<bar>b\<bar>"] by (simp add: abs_mult)
  then have "\<bar>c * b\<bar> < R" using M R by linarith
  then have "\<bar>q - c * b\<bar> \<le> u * \<bar>c * b\<bar> + h" unfolding q_def by (rule rd)
  moreover have "u * \<bar>c * b\<bar> \<le> u * (2 * \<bar>b\<bar>)"
    using cb u by (intro mult_left_mono) simp_all
  ultimately have q: "\<bar>q - c * b\<bar> \<le> 2 * (u * \<bar>b\<bar>) + h" by simp
  have "\<bar>c * b - (1 - a) * b\<bar> = \<bar>c - (1 - a)\<bar> * \<bar>b\<bar>"
    by (simp add: abs_mult [symmetric] algebra_simps)
  also have "\<dots> \<le> (u + h) * \<bar>b\<bar>"
    using c by (intro mult_right_mono) simp_all
  also have "\<dots> \<le> (u + u) * \<bar>b\<bar>"
    using h by (intro mult_right_mono) simp_all
  finally have cb': "\<bar>c * b - (1 - a) * b\<bar> \<le> 2 * (u * \<bar>b\<bar>)" by (simp add: algebra_simps)
  \<comment> \<open>the sum\<close>
  have "s - E = (p - a * t) + (q - c * b) + (c * b - (1 - a) * b)"
    by (simp add: s_def E_def)
  then have sE: "\<bar>s - E\<bar> \<le> u * \<bar>t\<bar> + 4 * (u * \<bar>b\<bar>) + 2 * h"
    using p q cb' by linarith
  have "\<bar>E\<bar> \<le> \<bar>a * t\<bar> + \<bar>(1 - a) * b\<bar>" unfolding E_def by (rule abs_triangle_ineq)
  moreover have "\<bar>(1 - a) * b\<bar> \<le> \<bar>b\<bar>"
    using a mult_right_mono [of "1 - a" 1 "\<bar>b\<bar>"] by (simp add: abs_mult)
  ultimately have E: "\<bar>E\<bar> \<le> \<bar>t\<bar> + \<bar>b\<bar>" using at by linarith
  have ut: "u * \<bar>t\<bar> \<le> \<bar>t\<bar>" and ub: "u * \<bar>b\<bar> \<le> \<bar>b\<bar>"
    using u mult_right_mono [of u 1 "\<bar>t\<bar>"] mult_right_mono [of u 1 "\<bar>b\<bar>"] by simp_all
  have ut0: "0 \<le> u * \<bar>t\<bar>" and ub0: "0 \<le> u * \<bar>b\<bar>" using u by simp_all
  have "\<bar>s\<bar> \<le> \<bar>E\<bar> + \<bar>s - E\<bar>" by linarith
  with E sE ut ub h u have s1: "\<bar>s\<bar> \<le> 2 * \<bar>t\<bar> + 5 * \<bar>b\<bar> + 2" by linarith
  with M R have "\<bar>s\<bar> < R" by linarith
  then have rs: "\<bar>r - s\<bar> \<le> u * \<bar>s\<bar> + h" unfolding r_def by (rule rd)
  have "\<bar>s\<bar> \<le> \<bar>t\<bar> + \<bar>b\<bar> + (u * \<bar>t\<bar> + 4 * (u * \<bar>b\<bar>) + 2 * h)"
    using E sE by linarith
  then have "u * \<bar>s\<bar> \<le> u * (\<bar>t\<bar> + \<bar>b\<bar> + (u * \<bar>t\<bar> + 4 * (u * \<bar>b\<bar>) + 2 * h))"
    using u by (intro mult_left_mono) simp_all
  also have "\<dots> = u * \<bar>t\<bar> + u * \<bar>b\<bar> + u * (u * \<bar>t\<bar>) + 4 * (u * (u * \<bar>b\<bar>)) + 2 * (u * h)"
    by (simp add: algebra_simps)
  also have "\<dots> \<le> u * \<bar>t\<bar> + u * \<bar>b\<bar> + u * \<bar>t\<bar> + 4 * (u * \<bar>b\<bar>) + 2 * h"
  proof -
    have "u * (u * \<bar>t\<bar>) \<le> 1 * (u * \<bar>t\<bar>)" using u ut0 by (intro mult_right_mono) simp_all
    moreover have "u * (u * \<bar>b\<bar>) \<le> 1 * (u * \<bar>b\<bar>)" using u ub0 by (intro mult_right_mono) simp_all
    moreover have "u * h \<le> 1 * h" using u h by (intro mult_right_mono) simp_all
    ultimately show ?thesis by linarith
  qed
  finally have us: "u * \<bar>s\<bar> \<le> 2 * (u * \<bar>t\<bar>) + 5 * (u * \<bar>b\<bar>) + 2 * h" by simp
  have "\<bar>r - E\<bar> \<le> \<bar>r - s\<bar> + \<bar>s - E\<bar>" by linarith
  with rs us sE have "\<bar>r - E\<bar> \<le> 3 * (u * \<bar>t\<bar>) + 9 * (u * \<bar>b\<bar>) + 5 * h" by linarith
  with ut0 ub0 h have "\<bar>r - E\<bar> \<le> 16 * (u * \<bar>t\<bar>) + 16 * (u * \<bar>b\<bar>) + 8 * h" by linarith
  moreover have "16 * (u * \<bar>t\<bar>) + 16 * (u * \<bar>b\<bar>) = (\<bar>t\<bar> + \<bar>b\<bar>) / 2 ^ 49"
    by (simp add: u_def algebra_simps)
  moreover have "8 * h = 1 / 2 ^ 1072" by (simp add: h_def)
  ultimately show ?thesis unfolding r E_def by (simp only:)
qed


lemma blend_double_contracts:
  assumes "0 < a" "a < 1" "\<bar>t\<bar> \<le> 2 ^ 1000" "\<bar>v\<bar> \<le> 2 ^ 1000"
  shows "contracted a t v (blend_double a t v)"
proof -
  have "(a * t + (1 - a) * v) - t = (1 - a) * (v - t)" by (simp add: algebra_simps)
  then have "\<bar>(a * t + (1 - a) * v) - t\<bar> = (1 - a) * \<bar>v - t\<bar>"
    using assms(2) by (simp add: abs_mult)
  moreover have "\<bar>blend_double a t v - (a * t + (1 - a) * v)\<bar> \<le> rounding_slack t v"
    unfolding rounding_slack_def using assms by (rule blend_double_error)
  ultimately show ?thesis unfolding contracted_def by linarith
qed

lemma update_double_detected:
  "update_double s (Some d) =
     (s\<lparr>frames_without_detection := 0, last_payload := Some (payload d),
        smoothed_box := Some (snd (smooth_box_double s (bounding_box d)))\<rparr>,
      Some \<lparr>payload = payload d, bounding_box = snd (smooth_box_double s (bounding_box d))\<rparr>)"
  by (simp add: update_double_def smooth_box_double_def Let_def split: option.splits)

lemma hit_double_alpha: "smoothing_alpha (hit_double n s d) = smoothing_alpha s"
  by (induction n) (simp_all add: update_double_detected)

lemma hit_double_step_some:
  assumes "smoothed_box s = Some b"
  shows "smoothed_box (fst (update_double s (Some d))) =
     Some \<lparr>bb_x = blend_double (smoothing_alpha s) (bb_x (bounding_box d)) (bb_x b),
           bb_y = blend_double (smoothing_alpha s) (bb_y (bounding_box d)) (bb_y b),
           bb_width = blend_double (smoothing_alpha s) (bb_width (bounding_box d)) (bb_width b),
           bb_height = blend_double (smoothing_alpha s) (bb_height (bounding_box d)) (bb_height b)\<rparr>"
  using assms by (simp add: update_double_detected smooth_box_double_def Let_def)

lemma hit_double_step_none:
  assumes "smoothed_box s = None"
  shows "smoothed_box (fst (update_double s (Some d))) = Some (bounding_box d)"
  using assms by (simp add: update_double_detected smooth_box_double_def)

text \<open>
  The literal \<open>0.3\<close>; the blend of 6 with 6 at that \<open>alpha\<close>, which is the double next
  below 6; and the blend of 6 with that double, which is that double again. With the
  default \<open>alpha = 0.6\<close> and the target 62 the double next below 62 is such a fixed
  point too.
\<close>

lemma literal_three_tenths: "round_double (3 / 10) = 5404319552844595 / 2 ^ 54"
  by code_simp

lemma blend_steps_off_target: "blend_double (round_double (3 / 10)) 6 6 = just_below_six"
  by code_simp

lemma blend_stalls_below_target:
  "blend_double (round_double (3 / 10)) 6 just_below_six = just_below_six"
  by code_simp


lemma default_alpha_stalls:
  "blend_double (round_double (6 / 10)) 62 (62 - 1 / 2 ^ 47) = 62 - 1 / 2 ^ 47"
  by code_simp

lemma on_target_alpha:
  "0 < smoothing_alpha on_target_smoother \<and> smoothing_alpha on_target_smoother < 1"
  by (simp add: on_target_smoother_def literal_three_tenths)

lemma on_target_first_step:
  "smoothed_box (fst (update_double on_target_smoother (Some on_target_qr))) = Some box_below_six"
proof -
  have "smoothed_box on_target_smoother = Some box_at_six"
    by (simp add: on_target_smoother_def)
  from hit_double_step_some [OF this, of on_target_qr] show ?thesis
    by (simp add: on_target_smoother_def on_target_qr_def box_at_six_def box_below_six_def
        blend_steps_off_target)
qed

lemma below_target_step:
  assumes "smoothed_box s = Some box_below_six" "smoothing_alpha s = round_double (3 / 10)"
  shows "smoothed_box (fst (update_double s (Some on_target_qr))) = Some box_below_six"
  using hit_double_step_some [OF assms(1), of on_target_qr]
  by (simp add: assms(2) on_target_qr_def box_at_six_def box_below_six_def
      blend_stalls_below_target)

lemma stalled_forever:
  "smoothed_box (hit_double (Suc n) on_target_smoother on_target_qr) = Some box_below_six"
proof (induction n)
  case 0
  show ?case using on_target_first_step by simp
next
  case (Suc n)
  have "smoothing_alpha (hit_double (Suc n) on_target_smoother on_target_qr) = round_double (3 / 10)"
    by (simp only: hit_double_alpha) (simp add: on_target_smoother_def)
  from below_target_step [OF Suc this] show ?case by simp
qed

lemma stalled_distance_does_not_vanish:
  "\<not> (\<lambda>n. \<bar>bb_x (the (smoothed_box (hit_double (Suc n) on_target_smoother on_target_qr))) - 6\<bar>)
        \<longlonglongrightarrow> 0"
proof
  assume "(\<lambda>n. \<bar>bb_x (the (smoothed_box (hit_double (Suc n) on_target_smoother on_target_qr))) - 6\<bar>)
        \<longlonglongrightarrow> 0"
  then have "(\<lambda>n::nat. (1::real) / 2 ^ 50) \<longlonglongrightarrow> 0"
    by (simp only: stalled_forever) (simp add: box_below_six_def just_below_six_def)
  then have "(1::real) / 2 ^ 50 = 0" by (simp only: LIMSEQ_const_iff)
  then show False by simp
qed

text \<open>
  C9, as claimed: with \<open>0 < alpha < 1\<close>, feeding the same box again and again makes the
  distance of each coordinate to its target decrease strictly at each step where it is
  not 0, and tend to 0. In the arithmetic of the interpreter it does not. With
  \<open>alpha = 0.3\<close>, the stored box at 6 in every coordinate and a detection at exactly
  that box, the first call stores \<open>5.999999999999999\<close>, off the target, and the second
  call stores the same value again: the distance is \<open>2^-50\<close>, not 0, and has not
  decreased. It stays there after every further call (\<open>stalled_forever\<close>), so it does not
  tend to 0 (\<open>stalled_distance_does_not_vanish\<close>).
\<close>

theorem constant_input_stalls:
  "0 < smoothing_alpha on_target_smoother \<and> smoothing_alpha on_target_smoother < 1 \<and>
   bounding_box on_target_qr = box_at_six \<and>
   smoothed_box (hit_double 0 on_target_smoother on_target_qr) = Some box_at_six \<and>
   smoothed_box (hit_double 1 on_target_smoother on_target_qr) = Some box_below_six \<and>
   smoothed_box (hit_double 2 on_target_smoother on_target_qr) = Some box_below_six \<and>
   bb_x box_at_six = 6 \<and> bb_x box_below_six = just_below_six \<and>
   just_below_six \<noteq> 6 \<and>
   \<not> closer 6 6 just_below_six \<and>
   \<not> closer 6 just_below_six just_below_six"
proof -
  have start: "smoothed_box (hit_double 0 on_target_smoother on_target_qr) = Some box_at_six"
    by (simp add: on_target_smoother_def)
  have one: "smoothed_box (hit_double 1 on_target_smoother on_target_qr) = Some box_below_six"
    using stalled_forever [of 0] by simp
  have two: "smoothed_box (hit_double 2 on_target_smoother on_target_qr) = Some box_below_six"
    using stalled_forever [of 1] by (simp add: numeral_2_eq_2)
  have target: "bounding_box on_target_qr = box_at_six"
    by (simp add: on_target_qr_def)
  have x: "bb_x box_at_six = 6" "bb_x box_below_six = just_below_six"
    by (simp_all add: box_at_six_def box_below_six_def)
  have off: "just_below_six \<noteq> 6"
    by (simp add: just_below_six_def)
  then have "\<not> closer 6 6 just_below_six" "\<not> closer 6 just_below_six just_below_six"
    by (simp_all add: closer_def)
  with on_target_alpha start one two target x off show ?thesis by simp
qed

text \<open>
  Over many steps: with \<open>alpha\<close> at least \<open>2^-40\<close> and values up to \<open>2^900\<close>, the
  values stay in range and the distance after \<open>n\<close> steps is bounded as in \<open>settled\<close>.
\<close>

lemma blend_repeated_bound:
  assumes a: "1 / 2 ^ 40 \<le> a" "a < 1" and t: "\<bar>t\<bar> \<le> 2 ^ 900" and v: "\<bar>v\<bar> \<le> 2 ^ 900"
  shows "settled a n t v (blend_repeated n a t v)"
proof -
  define e :: real where "e = 1 / 2 ^ 49"
  define r where "r = 1 - a + e"
  define C where "C = \<bar>t\<bar> / 2 ^ 48 + 1 / 2 ^ 1072"
  define F where "F = C / (a - e)"
  define d where "d k = \<bar>blend_repeated k a t v - t\<bar>" for k
  have e: "0 < e" "e = 1 / 2 ^ 49" by (simp_all add: e_def)
  have gap: "1 / 2 ^ 41 \<le> a - e" using a(1) by (simp add: e_def)
  then have ae: "0 < a - e" by simp
  have a0: "0 < a" using ae e by linarith
  have r: "0 \<le> r" "r < 1" "1 - r = a - e" using a ae e by (simp_all add: r_def)
  have C0: "0 \<le> C" by (simp add: C_def)
  have "C \<le> 2 ^ 900 / 2 ^ 48 + 1 / 2 ^ 1072"
    unfolding C_def using t by (intro add_mono divide_right_mono) simp_all
  also have "\<dots> \<le> 2 ^ 853" by simp
  finally have C1: "C \<le> 2 ^ 853" .
  have F0: "0 \<le> F" using C0 ae by (simp add: F_def)
  have "F \<le> 2 ^ 853 / (1 / 2 ^ 41)"
    unfolding F_def using C1 C0 gap by (intro frac_le) simp_all
  also have "\<dots> = 2 ^ 894" by simp
  finally have F1: "F \<le> 2 ^ 894" .
  have FC: "F * (1 - r) = C" using ae by (simp add: F_def r(3))
  have d0: "d 0 \<le> 2 ^ 901"
  proof -
    have "d 0 \<le> \<bar>v\<bar> + \<bar>t\<bar>" by (simp add: d_def)
    also have "\<dots> \<le> 2 ^ 900 + 2 ^ 900" using v t by (rule add_mono)
    also have "\<dots> = 2 ^ 901" by simp
    finally show ?thesis .
  qed
  have inv: "d k \<le> r ^ k * d 0 + F * (1 - r ^ k)" for k
  proof (induction k)
    case 0
    show ?case by simp
  next
    case (Suc k)
    define w where "w = blend_repeated k a t v"
    have rk: "0 \<le> r ^ k" "r ^ k \<le> 1" using r by (simp_all add: power_le_one)
    have dk0: "0 \<le> d k" by (simp add: d_def)
    have "r ^ k * d 0 \<le> 1 * d 0"
      using rk by (intro mult_right_mono) (simp_all add: d_def)
    moreover have "F * (1 - r ^ k) \<le> F * 1"
      using F0 rk by (intro mult_left_mono) simp_all
    ultimately have "d k \<le> d 0 + F" using Suc.IH by linarith
    with d0 F1 have "d k \<le> 2 ^ 901 + 2 ^ 894" by linarith
    moreover have "\<bar>w\<bar> \<le> \<bar>t\<bar> + d k" by (simp add: d_def w_def)
    ultimately have "\<bar>w\<bar> \<le> 2 ^ 900 + (2 ^ 901 + 2 ^ 894)" using t by linarith
    also have "\<dots> \<le> (2::real) ^ 1000" by simp
    finally have w: "\<bar>w\<bar> \<le> 2 ^ 1000" .
    have t': "\<bar>t\<bar> \<le> 2 ^ 1000"
    proof -
      have "(2::real) ^ 900 \<le> 2 ^ 1000" by simp
      with t show ?thesis by linarith
    qed
    have "contracted a t w (blend_double a t w)"
      using a0 a(2) t' w by (rule blend_double_contracts)
    then have "d (Suc k) \<le> (1 - a) * d k + ((\<bar>t\<bar> + \<bar>w\<bar>) / 2 ^ 49 + 1 / 2 ^ 1072)"
      by (simp add: contracted_def rounding_slack_def d_def w_def)
    moreover have "(\<bar>t\<bar> + \<bar>w\<bar>) / 2 ^ 49 \<le> (\<bar>t\<bar> + (\<bar>t\<bar> + d k)) / 2 ^ 49"
      using \<open>\<bar>w\<bar> \<le> \<bar>t\<bar> + d k\<close> by (intro divide_right_mono) simp_all
    moreover have "(\<bar>t\<bar> + (\<bar>t\<bar> + d k)) / 2 ^ 49 = \<bar>t\<bar> / 2 ^ 48 + e * d k"
      by (simp add: e_def field_simps)
    ultimately have "d (Suc k) \<le> (1 - a) * d k + e * d k + C"
      unfolding C_def by linarith
    also have "(1 - a) * d k + e * d k + C = r * d k + C"
      by (simp add: r_def algebra_simps)
    also have "\<dots> \<le> r * (r ^ k * d 0 + F * (1 - r ^ k)) + C"
      using Suc.IH r(1) by (simp add: mult_left_mono)
    also have "\<dots> = r ^ Suc k * d 0 + F * (1 - r ^ Suc k) - F * (1 - r) + C"
      by (simp add: algebra_simps)
    also have "\<dots> = r ^ Suc k * d 0 + F * (1 - r ^ Suc k)"
      using FC by simp
    finally show ?case .
  qed
  have "F * (1 - r ^ n) \<le> F * 1"
    using F0 r by (intro mult_left_mono) simp_all
  with inv [of n] have "d n \<le> r ^ n * d 0 + F" by simp
  then show ?thesis
    by (simp add: settled_def d_def r_def e_def F_def C_def)
qed

lemma hit_double_coordinates:
  assumes "smoothed_box s = Some b"
  shows "smoothed_box (hit_double n s d) =
     Some \<lparr>bb_x = blend_repeated n (smoothing_alpha s) (bb_x (bounding_box d)) (bb_x b),
           bb_y = blend_repeated n (smoothing_alpha s) (bb_y (bounding_box d)) (bb_y b),
           bb_width = blend_repeated n (smoothing_alpha s) (bb_width (bounding_box d)) (bb_width b),
           bb_height = blend_repeated n (smoothing_alpha s) (bb_height (bounding_box d)) (bb_height b)\<rparr>"
proof (induction n)
  case 0
  show ?case using assms by simp
next
  case (Suc n)
  from hit_double_step_some [OF Suc, of d] show ?case
    by (simp add: hit_double_alpha)
qed

text \<open>
  C9, amended. With \<open>0 < alpha < 1\<close> and a target box whose coordinates are at most
  \<open>2^1000\<close> in magnitude, feeding the same detection again and again stores a box after
  every call; the first box stored when none was is the target itself; and each call on
  a stored box with coordinates up to \<open>2^1000\<close> brings every coordinate to within
  \<open>1 - alpha\<close> times its previous distance to the target plus a rounding slack of
  \<open>(|target| + |previous|) / 2^49 + 2^-1072\<close>. With \<open>alpha\<close> at least \<open>2^-40\<close> and
  coordinates up to \<open>2^900\<close>, the distance of every coordinate after \<open>n\<close> calls is at
  most \<open>(1 - alpha + 2^-49)^n\<close> times the distance at the start plus
  \<open>(|target| / 2^48 + 2^-1072) / (alpha - 2^-49)\<close>: it comes to within rounding error of
  the target. Strict decrease and the limit 0 are not promised.
\<close>

theorem constant_input_contracts_up_to_rounding:
  assumes "0 < smoothing_alpha s" and "smoothing_alpha s < 1"
    and "coordinates_within (2 ^ 1000) (bounding_box d)"
  shows "(\<forall>n. \<exists>b. smoothed_box (hit_double (Suc n) s d) = Some b) \<and>
     (\<forall>n. smoothed_box (hit_double n s d) = None \<longrightarrow>
        smoothed_box (hit_double (Suc n) s d) = Some (bounding_box d)) \<and>
     (\<forall>n b b'. smoothed_box (hit_double n s d) = Some b \<and> coordinates_within (2 ^ 1000) b \<and>
        smoothed_box (hit_double (Suc n) s d) = Some b' \<longrightarrow>
        contracted (smoothing_alpha s) (bb_x (bounding_box d)) (bb_x b) (bb_x b') \<and>
        contracted (smoothing_alpha s) (bb_y (bounding_box d)) (bb_y b) (bb_y b') \<and>
        contracted (smoothing_alpha s) (bb_width (bounding_box d)) (bb_width b) (bb_width b') \<and>
        contracted (smoothing_alpha s) (bb_height (bounding_box d)) (bb_height b) (bb_height b')) \<and>
     (1 / 2 ^ 40 \<le> smoothing_alpha s \<and> coordinates_within (2 ^ 900) (bounding_box d) \<longrightarrow>
        (\<forall>n b b'. smoothed_box s = Some b \<and> coordinates_within (2 ^ 900) b \<and>
           smoothed_box (hit_double n s d) = Some b' \<longrightarrow>
           settled (smoothing_alpha s) n (bb_x (bounding_box d)) (bb_x b) (bb_x b') \<and>
           settled (smoothing_alpha s) n (bb_y (bounding_box d)) (bb_y b) (bb_y b') \<and>
           settled (smoothing_alpha s) n (bb_width (bounding_box d)) (bb_width b) (bb_width b') \<and>
           settled (smoothing_alpha s) n (bb_height (bounding_box d)) (bb_height b) (bb_height b')))"
proof -
  define a where "a = smoothing_alpha s"
  define t where "t = bounding_box d"
  have a: "0 < a" "a < 1" using assms by (simp_all add: a_def)
  have t: "\<bar>bb_x t\<bar> \<le> 2 ^ 1000" "\<bar>bb_y t\<bar> \<le> 2 ^ 1000"
    "\<bar>bb_width t\<bar> \<le> 2 ^ 1000" "\<bar>bb_height t\<bar> \<le> 2 ^ 1000"
    using assms(3) unfolding coordinates_within_def t_def by blast+
  have stored: "\<exists>b. smoothed_box (hit_double (Suc n) s d) = Some b" for n
    by (simp add: update_double_detected)
  have first: "smoothed_box (hit_double (Suc n) s d) = Some t"
    if "smoothed_box (hit_double n s d) = None" for n
    using hit_double_step_none [OF that, of d] by (simp add: t_def)
  have step: "contracted a (bb_x t) (bb_x b) (bb_x b') \<and>
      contracted a (bb_y t) (bb_y b) (bb_y b') \<and>
      contracted a (bb_width t) (bb_width b) (bb_width b') \<and>
      contracted a (bb_height t) (bb_height b) (bb_height b')"
    if box: "smoothed_box (hit_double n s d) = Some b" and within: "coordinates_within (2 ^ 1000) b"
      and next_box: "smoothed_box (hit_double (Suc n) s d) = Some b'" for n b b'
  proof -
    have b: "\<bar>bb_x b\<bar> \<le> 2 ^ 1000" "\<bar>bb_y b\<bar> \<le> 2 ^ 1000"
      "\<bar>bb_width b\<bar> \<le> 2 ^ 1000" "\<bar>bb_height b\<bar> \<le> 2 ^ 1000"
      using within unfolding coordinates_within_def by blast+
    from hit_double_step_some [OF box, of d] next_box
    have b': "b' = \<lparr>bb_x = blend_double a (bb_x t) (bb_x b),
           bb_y = blend_double a (bb_y t) (bb_y b),
           bb_width = blend_double a (bb_width t) (bb_width b),
           bb_height = blend_double a (bb_height t) (bb_height b)\<rparr>"
      by (simp add: hit_double_alpha a_def t_def)
    have "contracted a (bb_x t) (bb_x b) (blend_double a (bb_x t) (bb_x b))"
      using a t(1) b(1) by (rule blend_double_contracts)
    moreover have "contracted a (bb_y t) (bb_y b) (blend_double a (bb_y t) (bb_y b))"
      using a t(2) b(2) by (rule blend_double_contracts)
    moreover have "contracted a (bb_width t) (bb_width b) (blend_double a (bb_width t) (bb_width b))"
      using a t(3) b(3) by (rule blend_double_contracts)
    moreover have "contracted a (bb_height t) (bb_height b) (blend_double a (bb_height t) (bb_height b))"
      using a t(4) b(4) by (rule blend_double_contracts)
    ultimately show ?thesis by (simp add: b')
  qed
  have many: "settled a n (bb_x t) (bb_x b) (bb_x b') \<and>
      settled a n (bb_y t) (bb_y b) (bb_y b') \<and>
      settled a n (bb_width t) (bb_width b) (bb_width b') \<and>
      settled a n (bb_height t) (bb_height b) (bb_height b')"
    if low: "1 / 2 ^ 40 \<le> a" and target: "coordinates_within (2 ^ 900) t"
      and box: "smoothed_box s = Some b" and within: "coordinates_within (2 ^ 900) b"
      and last_box: "smoothed_box (hit_double n s d) = Some b'" for n b b'
  proof -
    have t9: "\<bar>bb_x t\<bar> \<le> 2 ^ 900" "\<bar>bb_y t\<bar> \<le> 2 ^ 900"
      "\<bar>bb_width t\<bar> \<le> 2 ^ 900" "\<bar>bb_height t\<bar> \<le> 2 ^ 900"
      using target unfolding coordinates_within_def by blast+
    have b9: "\<bar>bb_x b\<bar> \<le> 2 ^ 900" "\<bar>bb_y b\<bar> \<le> 2 ^ 900"
      "\<bar>bb_width b\<bar> \<le> 2 ^ 900" "\<bar>bb_height b\<bar> \<le> 2 ^ 900"
      using within unfolding coordinates_within_def by blast+
    from hit_double_coordinates [OF box, of n d] last_box
    have b': "b' = \<lparr>bb_x = blend_repeated n a (bb_x t) (bb_x b),
           bb_y = blend_repeated n a (bb_y t) (bb_y b),
           bb_width = blend_repeated n a (bb_width t) (bb_width b),
           bb_height = blend_repeated n a (bb_height t) (bb_height b)\<rparr>"
      by (simp add: a_def t_def)
    have "settled a n (bb_x t) (bb_x b) (blend_repeated n a (bb_x t) (bb_x b))"
      using low a(2) t9(1) b9(1) by (rule blend_repeated_bound)
    moreover have "settled a n (bb_y t) (bb_y b) (blend_repeated n a (bb_y t) (bb_y b))"
      using low a(2) t9(2) b9(2) by (rule blend_repeated_bound)
    moreover have "settled a n (bb_width t) (bb_width b) (blend_repeated n a (bb_width t) (bb_width b))"
      using low a(2) t9(3) b9(3) by (rule blend_repeated_bound)
    moreover have "settled a n (bb_height t) (bb_height b) (blend_repeated n a (bb_height t) (bb_height b))"
      using low a(2) t9(4) b9(4) by (rule blend_repeated_bound)
    ultimately show ?thesis by (simp add: b')
  qed
  from stored first step many show ?thesis unfolding a_def t_def by blast
qed

theorem constant_input_contracts_up_to_rounding_witness:
  "0 < smoothing_alpha on_target_smoother \<and> smoothing_alpha on_target_smoother < 1 \<and>
   1 / 2 ^ 40 \<le> smoothing_alpha on_target_smoother \<and>
   coordinates_within (2 ^ 1000) (bounding_box on_target_qr) \<and>
   coordinates_within (2 ^ 900) (bounding_box on_target_qr) \<and>
   smoothed_box (hit_double 0 on_target_smoother on_target_qr) = Some box_at_six \<and>
   smoothed_box (hit_double (Suc 0) on_target_smoother on_target_qr) = Some box_below_six \<and>
   smoothed_box (hit_double (Suc (Suc 0)) on_target_smoother on_target_qr) = Some box_below_six \<and>
   contracted (smoothing_alpha on_target_smoother) 6 6 just_below_six \<and>
   settled (smoothing_alpha on_target_smoother) (Suc (Suc 0)) 6 6 just_below_six"
proof -
  have within: "coordinates_within (2 ^ 1000) box_at_six"
    "coordinates_within (2 ^ 900) box_at_six"
    by (simp_all add: coordinates_within_def box_at_six_def)
  have target: "bounding_box on_target_qr = box_at_six"
    by (simp add: on_target_qr_def)
  have stored: "smoothed_box on_target_smoother = Some box_at_six"
    by (simp add: on_target_smoother_def)
  then have start: "smoothed_box (hit_double 0 on_target_smoother on_target_qr) = Some box_at_six"
    by simp
  note after = stalled_forever [of 0]
  note later = stalled_forever [of "Suc 0"]
  have low: "1 / 2 ^ 40 \<le> smoothing_alpha on_target_smoother"
    by (simp add: on_target_smoother_def literal_three_tenths)
  have bounded: "coordinates_within (2 ^ 1000) (bounding_box on_target_qr)"
    "coordinates_within (2 ^ 900) (bounding_box on_target_qr)"
    using within by (simp_all only: target)
  note all = constant_input_contracts_up_to_rounding
    [OF on_target_alpha [THEN conjunct1] on_target_alpha [THEN conjunct2] bounded(1)]
  note step = all [THEN conjunct2, THEN conjunct2, THEN conjunct1, rule_format,
      of 0 box_at_six box_below_six]
  from start within(1) after
  have "smoothed_box (hit_double 0 on_target_smoother on_target_qr) = Some box_at_six \<and>
      coordinates_within (2 ^ 1000) box_at_six \<and>
      smoothed_box (hit_double (Suc 0) on_target_smoother on_target_qr) = Some box_below_six"
    by (intro conjI)
  from step [OF this]
  have "contracted (smoothing_alpha on_target_smoother) (bb_x box_at_six) (bb_x box_at_six)
      (bb_x box_below_six)"
    unfolding target by (rule conjunct1)
  then have one: "contracted (smoothing_alpha on_target_smoother) 6 6 just_below_six"
    by (simp add: box_at_six_def box_below_six_def)
  from low bounded(2)
  have "1 / 2 ^ 40 \<le> smoothing_alpha on_target_smoother \<and>
      coordinates_within (2 ^ 900) (bounding_box on_target_qr)"
    by (intro conjI)
  note many = all [THEN conjunct2, THEN conjunct2, THEN conjunct2, rule_format, OF this,
      of box_at_six "Suc (Suc 0)" box_below_six]
  from stored within(2) later
  have "smoothed_box on_target_smoother = Some box_at_six \<and>
      coordinates_within (2 ^ 900) box_at_six \<and>
      smoothed_box (hit_double (Suc (Suc 0)) on_target_smoother on_target_qr) = Some box_below_six"
    by (intro conjI)
  from many [OF this]
  have "settled (smoothing_alpha on_target_smoother) (Suc (Suc 0)) (bb_x box_at_six)
      (bb_x box_at_six) (bb_x box_below_six)"
    unfolding target by (rule conjunct1)
  then have two: "settled (smoothing_alpha on_target_smoother) (Suc (Suc 0)) 6 6 just_below_six"
    by (simp add: box_at_six_def box_below_six_def)
  from on_target_alpha low bounded start after later one two show ?thesis
    by (intro conjI) simp_all
qed

section \<open>The safety decision\<close>

lemma set_banner_value: "banner_can_continue (set_banner m v) = v"
  by (simp add: set_banner_def)

text \<open>
  C1. Whenever the current distance reading exceeds the distance threshold, the safety
  decision \<open>_on_frame_ready\<close> shows on the banner is true, for every published frame:
  whatever the marker, the classifier and the two enabled flags say. In particular with
  distance 200, threshold 100 and neither detector seeing anything.
\<close>

theorem far_target_may_continue:
  "current_distance m > distance_threshold m \<Longrightarrow>
     banner_can_continue (on_frame_ready m frame_data)"
  by (simp add: on_frame_ready_def set_banner_value)

theorem far_target_may_continue_witness:
  "current_distance far_window = 200 \<and> distance_threshold far_window = 100 \<and>
   \<not> fd_robot_detected blind_frame_data \<and> \<not> fd_classification_detected blind_frame_data \<and>
   \<not> fd_can_continue_moving blind_frame_data \<and>
   banner_can_continue (on_frame_ready far_window blind_frame_data)"
proof -
  have far: "current_distance far_window > distance_threshold far_window"
    by (simp add: far_window_def)
  from far_target_may_continue [OF far, of blind_frame_data] show ?thesis
    by (simp add: far_window_def blind_frame_data_def)
qed

section \<open>What the capture loop publishes\<close>

lemma offer_frame_returns: "\<exists>q'. offer_frame q frame = Inr q'"
  by (simp add: offer_frame_def put_nowait_def)

lemma offer_frame_full:
  "0 < maxsize q \<Longrightarrow> maxsize q \<le> int (length (queued q)) \<Longrightarrow> offer_frame q frame = Inr q"
  by (simp add: offer_frame_def put_nowait_def)

lemma forward_frame_returns: "\<exists>w'. forward_frame w frame = Inr w'"
proof -
  obtain q' where
    "offer_frame (roboflow_queue ((if \<not> roboflow_thread_alive w
        then w\<lparr>roboflow_thread_running := True, roboflow_thread_alive := True\<rparr> else w)
         \<lparr>roboflow_frame_counter := 0\<rparr>)) frame = Inr q'"
    using offer_frame_returns by blast
  then show ?thesis
    by (auto simp add: forward_frame_def Let_def)
qed

lemma forward_frame_keeps_classification:
  assumes "forward_frame w frame = Inr w'"
  shows "classification_detected w' = classification_detected w \<and>
         classification_bbox w' = classification_bbox w \<and>
         frames_without_classification w' = frames_without_classification w \<and>
         roboflow_enabled w' = roboflow_enabled w \<and> smoother w' = smoother w"
  using assms
  by (auto simp add: forward_frame_def Let_def split: if_splits sum.splits)

lemma busy_worker_sees_target:
  "\<exists>w' fd. run_iteration busy_worker 0 (Some sample_frame) target_decoder = Inr (w', 0, Published fd) \<and>
     fd_robot_detected fd \<and> fd_classification_detected fd"
  by (simp add: run_iteration_def busy_worker_def sample_frame_def target_decoder_def
      detect_qr_def flip_horizontal_def TARGET_PAYLOAD_def QR_DETECTION_SCALE_def
      update_def smooth_box_def smoother_init_def forward_frame_def offer_frame_def
      put_nowait_def ROBOFLOW_FRAME_INTERVAL_def Let_def)

lemma run_iteration_published:
  assumes "run_iteration w frames_failed (Some raw) decoder = Inr (w', failed', Published fd)"
  shows "\<exists>found.
           (if qr_enabled w then detect_qr decoder (flip_horizontal raw) else Inr None) = Inr found \<and>
           smoother w' = fst (update (smoother w) found) \<and>
           fd = \<lparr>fd_frame = flip_horizontal raw,
                 fd_detection = snd (update (smoother w) found),
                 fd_robot_detected = (snd (update (smoother w) found) \<noteq> None),
                 fd_qr_enabled = qr_enabled w,
                 fd_classification_detected = (roboflow_enabled w \<and> classification_detected w),
                 fd_classification_bbox =
                   (if roboflow_enabled w then classification_bbox w else None),
                 fd_can_continue_moving =
                   (if roboflow_enabled w
                    then snd (update (smoother w) found) \<noteq> None \<and> classification_detected w
                    else snd (update (smoother w) found) \<noteq> None),
                 fd_roboflow_enabled = roboflow_enabled w\<rparr>"
proof -
  let ?frame = "flip_horizontal raw"
  from assms obtain found where found:
    "(if qr_enabled w then detect_qr decoder ?frame else Inr None) = Inr found"
    by (auto simp add: run_iteration_def Let_def split: sum.splits)
  obtain sm smoothed where upd: "update (smoother w) found = (sm, smoothed)"
    by (cases "update (smoother w) found")
  let ?w1 = "w\<lparr>smoother := sm\<rparr>"
  from assms found upd obtain w2 where
    fwd: "(if roboflow_enabled w then forward_frame ?w1 ?frame else Inr ?w1) = Inr w2"
    by (auto simp add: run_iteration_def Let_def split: sum.splits)
  have kept: "classification_detected w2 = classification_detected w"
    "classification_bbox w2 = classification_bbox w" "smoother w2 = sm"
    using fwd forward_frame_keeps_classification [of ?w1 ?frame w2]
    by (auto split: if_splits)
  from assms found upd fwd have out: "w' = w2"
    "fd = \<lparr>fd_frame = ?frame, fd_detection = smoothed,
           fd_robot_detected = (smoothed \<noteq> None), fd_qr_enabled = qr_enabled w,
           fd_classification_detected =
             (if roboflow_enabled w then classification_detected w2 else False),
           fd_classification_bbox =
             (if roboflow_enabled w then classification_bbox w2 else None),
           fd_can_continue_moving =
             (if roboflow_enabled w
              then smoothed \<noteq> None \<and> (if roboflow_enabled w then classification_detected w2 else False)
              else smoothed \<noteq> None),
           fd_roboflow_enabled = roboflow_enabled w\<rparr>"
    by (cases "roboflow_enabled w"; auto simp add: run_iteration_def Let_def)+
  have "smoother w' = fst (update (smoother w) found)"
    using out(1) kept(3) upd by simp
  moreover have "fd = \<lparr>fd_frame = ?frame,
                 fd_detection = snd (update (smoother w) found),
                 fd_robot_detected = (snd (update (smoother w) found) \<noteq> None),
                 fd_qr_enabled = qr_enabled w,
                 fd_classification_detected = (roboflow_enabled w \<and> classification_detected w),
                 fd_classification_bbox =
                   (if roboflow_enabled w then classification_bbox w else None),
                 fd_can_continue_moving =
                   (if roboflow_enabled w
                    then snd (update (smoother w) found) \<noteq> None \<and> classification_detected w
                    else snd (update (smoother w) found) \<noteq> None),
                 fd_roboflow_enabled = roboflow_enabled w\<rparr>"
    using out(2) kept upd by auto
  ultimately show ?thesis using found by blast
qed

lemma busy_worker_sees_nothing:
  "\<exists>w' fd. run_iteration busy_worker 0 (Some sample_frame) empty_decoder = Inr (w', 0, Published fd)"
  by (simp add: run_iteration_def busy_worker_def sample_frame_def empty_decoder_def
      detect_qr_def flip_horizontal_def update_def smoother_init_def forward_frame_def
      offer_frame_def put_nowait_def ROBOFLOW_FRAME_INTERVAL_def Let_def)

text \<open>
  C2. For a frame the capture loop published, shown while the distance reading does not
  exceed the threshold: the decision on the banner is (marker detected) and (classifier
  detected) when the classifier was enabled for that frame, and (marker detected) alone
  when it was disabled. Marker detected means that the smoother, fed with what
  \<open>_detect_qr\<close> found in this frame (nothing when marker detection is disabled), returned
  a detection; that return is the detection the frame carries. Classifier detected is the
  flag the classifier worker last published.
\<close>

theorem near_target_gate:
  assumes "\<not> current_distance m > distance_threshold m"
    and "run_iteration w frames_failed (Some raw) decoder = Inr (w', failed', Published fd)"
  shows "banner_can_continue (on_frame_ready m fd) =
           (if roboflow_enabled w then fd_robot_detected fd \<and> fd_classification_detected fd
            else fd_robot_detected fd) \<and>
         fd_roboflow_enabled fd = roboflow_enabled w \<and>
         fd_robot_detected fd = (fd_detection fd \<noteq> None) \<and>
         (roboflow_enabled w \<longrightarrow> fd_classification_detected fd = classification_detected w) \<and>
         (\<exists>found.
            (if qr_enabled w then detect_qr decoder (flip_horizontal raw) else Inr None) = Inr found \<and>
            fd_detection fd = snd (update (smoother w) found) \<and>
            smoother w' = fst (update (smoother w) found) \<and>
            banner_can_continue (on_frame_ready m fd) =
              (if roboflow_enabled w
               then snd (update (smoother w) found) \<noteq> None \<and> classification_detected w
               else snd (update (smoother w) found) \<noteq> None))"
proof -
  have banner: "banner_can_continue (on_frame_ready m fd) = fd_can_continue_moving fd"
    using assms(1) by (simp add: on_frame_ready_def set_banner_value)
  from run_iteration_published [OF assms(2)] obtain found where
    found: "(if qr_enabled w then detect_qr decoder (flip_horizontal raw) else Inr None) = Inr found"
    and sm: "smoother w' = fst (update (smoother w) found)"
    and fd: "fd = \<lparr>fd_frame = flip_horizontal raw,
                 fd_detection = snd (update (smoother w) found),
                 fd_robot_detected = (snd (update (smoother w) found) \<noteq> None),
                 fd_qr_enabled = qr_enabled w,
                 fd_classification_detected = (roboflow_enabled w \<and> classification_detected w),
                 fd_classification_bbox =
                   (if roboflow_enabled w then classification_bbox w else None),
                 fd_can_continue_moving =
                   (if roboflow_enabled w
                    then snd (update (smoother w) found) \<noteq> None \<and> classification_detected w
                    else snd (update (smoother w) found) \<noteq> None),
                 fd_roboflow_enabled = roboflow_enabled w\<rparr>"
    by blast
  have fields: "fd_detection fd = snd (update (smoother w) found)"
    "fd_robot_detected fd = (snd (update (smoother w) found) \<noteq> None)"
    "fd_classification_detected fd = (roboflow_enabled w \<and> classification_detected w)"
    "fd_can_continue_moving fd =
       (if roboflow_enabled w
        then snd (update (smoother w) found) \<noteq> None \<and> classification_detected w
        else snd (update (smoother w) found) \<noteq> None)"
    "fd_roboflow_enabled fd = roboflow_enabled w"
    by (simp_all add: fd)
  from banner fields found sm show ?thesis by auto
qed

theorem near_target_gate_witness:
  "\<not> current_distance near_window > distance_threshold near_window \<and>
   roboflow_enabled busy_worker \<and> classification_detected busy_worker \<and>
   (\<exists>w' fd. run_iteration busy_worker 0 (Some sample_frame) target_decoder =
        Inr (w', 0, Published fd) \<and>
      fd_detection fd \<noteq> None \<and>
      banner_can_continue (on_frame_ready near_window fd)) \<and>
   (\<exists>w' fd. run_iteration busy_worker 0 (Some sample_frame) empty_decoder =
        Inr (w', 0, Published fd) \<and>
      fd_detection fd = None \<and>
      \<not> banner_can_continue (on_frame_ready near_window fd))"
proof -
  have near: "\<not> current_distance near_window > distance_threshold near_window"
    by (simp add: near_window_def)
  have on: "roboflow_enabled busy_worker" "classification_detected busy_worker"
    "qr_enabled busy_worker"
    by (simp_all add: busy_worker_def)
  have seen: "detect_qr target_decoder (flip_horizontal sample_frame) =
      Inr (Some \<lparr>payload = ''ROBOT_R1'',
        bounding_box = \<lparr>bb_x = 20, bb_y = 40, bb_width = 60, bb_height = 80\<rparr>\<rparr>)"
    by (simp add: detect_qr_def target_decoder_def TARGET_PAYLOAD_def QR_DETECTION_SCALE_def)
  have unseen: "detect_qr empty_decoder (flip_horizontal sample_frame) = Inr None"
    by (simp add: detect_qr_def empty_decoder_def)
  have held: "snd (update (smoother busy_worker) (Some d)) \<noteq> None" for d
    by (simp add: update_def smooth_box_def Let_def split: option.split prod.split)
  have lost: "snd (update (smoother busy_worker) None) = None"
    by (simp add: busy_worker_def update_def smoother_init_def Let_def)
  from busy_worker_sees_target obtain w1 fd1 where
    run1: "run_iteration busy_worker 0 (Some sample_frame) target_decoder = Inr (w1, 0, Published fd1)"
    by blast
  from near_target_gate [OF near run1] on seen held
  have "fd_detection fd1 \<noteq> None \<and> banner_can_continue (on_frame_ready near_window fd1)"
    by auto
  with run1 have first: "\<exists>w' fd. run_iteration busy_worker 0 (Some sample_frame) target_decoder =
        Inr (w', 0, Published fd) \<and> fd_detection fd \<noteq> None \<and>
      banner_can_continue (on_frame_ready near_window fd)"
    by blast
  from busy_worker_sees_nothing obtain w2 fd2 where
    run2: "run_iteration busy_worker 0 (Some sample_frame) empty_decoder = Inr (w2, 0, Published fd2)"
    by blast
  from near_target_gate [OF near run2] on unseen lost
  have "fd_detection fd2 = None \<and> \<not> banner_can_continue (on_frame_ready near_window fd2)"
    by auto
  with run2 have second: "\<exists>w' fd. run_iteration busy_worker 0 (Some sample_frame) empty_decoder =
        Inr (w', 0, Published fd) \<and> fd_detection fd = None \<and>
      \<not> banner_can_continue (on_frame_ready near_window fd)"
    by blast
  from near on first second show ?thesis by blast
qed

section \<open>Errors of the marker decoder\<close>

lemma detect_qr_error: "decoder frame = Inl e \<Longrightarrow> detect_qr decoder frame = Inl e"
  by (simp add: detect_qr_def)

lemma decoder_error_propagates:
  assumes "decoder (flip_horizontal raw) = Inl e" and "qr_enabled w"
  shows "run_iteration w frames_failed (Some raw) decoder = Inl e"
  using assms by (simp add: run_iteration_def detect_qr_def Let_def)

text \<open>A symbol whose payload is not valid UTF-8 ends the pass the same way.\<close>

lemma binary_payload_ends_run:
  "run_iteration camera_worker_init 0 (Some sample_frame) binary_decoder = Inl UnicodeDecodeError"
  by (simp add: binary_decoder_def detect_qr_def run_iteration_def camera_worker_init_def Let_def)

text \<open>
  C5. The claim says that when the decoder raises, \<open>_detect_qr\<close> returns no detection
  and the capture loop goes on. The code has no handler for it, neither in \<open>_detect_qr\<close>
  nor in the loop body of \<open>run\<close>: with a decoder that raises, \<open>_detect_qr\<close> ends with the
  exception instead of returning \<open>None\<close>, and the pass of a fresh worker (marker
  detection enabled) through the loop body ends with the exception too, so nothing is
  published and the loop is left.
\<close>

theorem decoder_error_not_absorbed:
  "failing_decoder (flip_horizontal sample_frame) = Inl OtherException \<and>
   detect_qr failing_decoder (flip_horizontal sample_frame) \<noteq> Inr None \<and>
   detect_qr failing_decoder (flip_horizontal sample_frame) = Inl OtherException \<and>
   qr_enabled camera_worker_init \<and>
   run_iteration camera_worker_init 0 (Some sample_frame) failing_decoder = Inl OtherException"
  by (simp add: failing_decoder_def detect_qr_def run_iteration_def camera_worker_init_def Let_def)

section \<open>Offering a frame to a full queue\<close>

lemma forward_frame_full:
  assumes "0 < maxsize (roboflow_queue w)"
    and "maxsize (roboflow_queue w) \<le> int (length (queued (roboflow_queue w)))"
  shows "\<exists>w'. forward_frame w frame = Inr w' \<and> roboflow_queue w' = roboflow_queue w"
  using assms by (simp add: forward_frame_def Let_def offer_frame_full)

lemma run_iteration_full:
  assumes "0 < maxsize (roboflow_queue w)"
    and "maxsize (roboflow_queue w) \<le> int (length (queued (roboflow_queue w)))"
    and "run_iteration w frames_failed camera decoder = Inr (w', failed', r)"
  shows "roboflow_queue w' = roboflow_queue w"
proof (cases camera)
  case None
  with assms(3) show ?thesis
    by (simp add: run_iteration_def Let_def split: if_splits)
next
  case (Some raw)
  let ?frame = "flip_horizontal raw"
  from assms(3) Some obtain found where found:
    "(if qr_enabled w then detect_qr decoder ?frame else Inr None) = Inr found"
    by (auto simp add: run_iteration_def Let_def split: sum.splits)
  obtain sm smoothed where upd: "update (smoother w) found = (sm, smoothed)"
    by (cases "update (smoother w) found")
  let ?w1 = "w\<lparr>smoother := sm\<rparr>"
  from assms(1,2) obtain w2 where
    fwd: "forward_frame ?w1 ?frame = Inr w2" and same: "roboflow_queue w2 = roboflow_queue w"
    using forward_frame_full [of ?w1 ?frame] by auto
  from assms(3) Some found upd fwd same show ?thesis
    by (cases "roboflow_enabled w") (auto simp add: run_iteration_def Let_def)
qed

text \<open>
  C6. When the queue to the classifier worker is full, offering a frame returns at once
  (\<open>put_nowait\<close> raises \<open>Full\<close>, which the loop catches), the queue keeps exactly the
  frames it held, and the new frame is not in it: after \<open>forward_frame\<close>, and after any
  pass through the loop body that returns, the queue is the one before.
\<close>

theorem full_queue_drops_new_frame:
  assumes "0 < maxsize (roboflow_queue w)"
    and "maxsize (roboflow_queue w) \<le> int (length (queued (roboflow_queue w)))"
  shows "put_nowait (roboflow_queue w) (Some frame) = Inl Full \<and>
         offer_frame (roboflow_queue w) frame = Inr (roboflow_queue w) \<and>
         (\<exists>w'. forward_frame w frame = Inr w' \<and> roboflow_queue w' = roboflow_queue w) \<and>
         (\<forall>frames_failed camera decoder w' failed' r.
            run_iteration w frames_failed camera decoder = Inr (w', failed', r) \<longrightarrow>
            roboflow_queue w' = roboflow_queue w)"
proof -
  have "put_nowait (roboflow_queue w) (Some frame) = Inl Full"
    using assms by (simp add: put_nowait_def)
  with assms show ?thesis
    using offer_frame_full [of "roboflow_queue w" frame] forward_frame_full [of w frame]
      run_iteration_full [of w]
    by blast
qed

theorem full_queue_drops_new_frame_witness:
  "maxsize (roboflow_queue busy_worker) = 1 \<and>
   queued (roboflow_queue busy_worker) = [Some sample_frame] \<and>
   put_nowait (roboflow_queue busy_worker) (Some (flip_horizontal sample_frame)) = Inl Full \<and>
   (\<exists>w'. forward_frame busy_worker (flip_horizontal sample_frame) = Inr w' \<and>
      queued (roboflow_queue w') = [Some sample_frame]) \<and>
   (\<exists>w' fd. run_iteration busy_worker 0 (Some sample_frame) target_decoder =
        Inr (w', 0, Published fd) \<and> queued (roboflow_queue w') = [Some sample_frame])"
proof -
  have q: "maxsize (roboflow_queue busy_worker) = 1"
    "queued (roboflow_queue busy_worker) = [Some sample_frame]"
    by (simp_all add: busy_worker_def)
  have full: "0 < maxsize (roboflow_queue busy_worker)"
    "maxsize (roboflow_queue busy_worker) \<le> int (length (queued (roboflow_queue busy_worker)))"
    by (simp_all add: q)
  note drop = full_queue_drops_new_frame [OF full, of "flip_horizontal sample_frame"]
  from busy_worker_sees_target obtain w' fd where
    run: "run_iteration busy_worker 0 (Some sample_frame) target_decoder = Inr (w', 0, Published fd)"
    by blast
  with drop have "roboflow_queue w' = roboflow_queue busy_worker" by blast
  with run q drop show ?thesis by auto
qed

section \<open>Disabling the classifier\<close>

text \<open>
  C7. Setting \<open>roboflow_enabled\<close> to false leaves the worker, whatever its state was
  (a detection published, frames queued, the thread alive), with
  \<open>classification_detected\<close> false, no \<open>classification_bbox\<close> and
  \<open>frames_without_classification\<close> 0.
\<close>

theorem disabling_resets_classifier_state:
  "\<not> roboflow_enabled (set_roboflow_enabled w False) \<and>
   \<not> classification_detected (set_roboflow_enabled w False) \<and>
   classification_bbox (set_roboflow_enabled w False) = None \<and>
   frames_without_classification (set_roboflow_enabled w False) = 0"
  by (simp add: set_roboflow_enabled_def)

section \<open>Failures of the classifier call\<close>

lemma detect_returns: "\<exists>r. detect api_key frame call = Inr r"
  by (simp add: detect_def split: sum.split py_exception.split)

lemma detect_failure: "detect api_key frame (Raises e) = Inr (no_detection frame)"
  by (simp add: detect_def detect_try_def split: py_exception.split)

lemma no_detection_is_miss:
  "\<not> detected (no_detection frame) \<and> detection (no_detection frame) = None"
  by (simp add: no_detection_def)

lemma publish_miss:
  assumes "\<not> (detected result \<and> detection result \<noteq> None)"
  shows "publish_result w result =
     Inr (if frames_without_classification w + 1 \<ge> ROBOFLOW_PERSISTENCE_FRAMES
          then w\<lparr>frames_without_classification := frames_without_classification w + 1,
                 classification_detected := False, classification_bbox := None\<rparr>
          else w\<lparr>frames_without_classification := frames_without_classification w + 1\<rparr>)"
  using assms by (auto simp add: publish_result_def Let_def)

lemma publish_hit:
  assumes "detected result" "detection result = Some d" "bbox d = Inr (x, y, width, height)"
  shows "publish_result w result =
     Inr (w\<lparr>classification_detected := True, frames_without_classification := 0,
            classification_bbox :=
              Some \<lparr>cb_x = x, cb_y = y, cb_width = width, cb_height = height\<rparr>\<rparr>)"
  using assms by (simp add: publish_result_def Let_def)

text \<open>
  When \<open>bbox\<close> raises, it does so inside the locked block, after the flag and the count
  were written and before the box is.
\<close>

lemma publish_hit_box_raises:
  assumes "detected result" "detection result = Some d" "bbox d = Inl e"
  shows "publish_result w result =
     Inl (e, w\<lparr>classification_detected := True, frames_without_classification := 0\<rparr>)"
  using assms by (simp add: publish_result_def Let_def)

lemma worker_iteration_returns: "\<exists>f. worker_iteration w client = Inr f"
  by (simp add: worker_iteration_def split: sum.split prod.split)

lemma worker_iteration_frame:
  assumes "roboflow_thread_running w"
    and "queued (roboflow_queue w) = Some frame # rest"
    and "client frame = Inr result"
    and "publish_result (w\<lparr>roboflow_queue := (roboflow_queue w)\<lparr>queued := rest\<rparr>\<rparr>) result = Inr w2"
  shows "worker_iteration w client = Inr (Continue w2)"
  using assms by (simp add: worker_iteration_def worker_try_def queue_get_def Let_def)

lemma worker_iteration_client_raises:
  assumes "roboflow_thread_running w"
    and "queued (roboflow_queue w) = Some frame # rest"
    and "client frame = Inl e"
  shows "worker_iteration w client =
     Inr (Continue (w\<lparr>roboflow_queue := (roboflow_queue w)\<lparr>queued := rest\<rparr>\<rparr>))"
  using assms by (simp add: worker_iteration_def worker_try_def queue_get_def Let_def)

text \<open>
  The client and the worker, for any reply and any worker: \<open>detect\<close> always returns a
  result, and a call that raised gives \<open>detected = False\<close>; no exception leaves a pass of
  the worker loop; a result without a detection adds one to
  \<open>frames_without_classification\<close> and clears the flag and the box when the count
  reaches \<open>ROBOFLOW_PERSISTENCE_FRAMES\<close>; a result with a detection whose \<open>bbox\<close> can
  be computed sets the flag, resets the count and stores that box.
\<close>

lemma classifier_result_is_published:
  "(\<exists>r. detect api_key frame call = Inr r) \<and>
   detect api_key frame (Raises e) = Inr (no_detection frame) \<and>
   \<not> detected (no_detection frame) \<and>
   (\<exists>f. worker_iteration w client = Inr f) \<and>
   (roboflow_thread_running w \<and> queued (roboflow_queue w) = Some frame # rest \<and>
    client frame = Inr result \<longrightarrow>
      (\<not> (detected result \<and> detection result \<noteq> None) \<longrightarrow>
         (\<exists>w'. worker_iteration w client = Inr (Continue w') \<and>
            frames_without_classification w' = frames_without_classification w + 1 \<and>
            (if frames_without_classification w + 1 \<ge> ROBOFLOW_PERSISTENCE_FRAMES
             then \<not> classification_detected w' \<and> classification_bbox w' = None
             else classification_detected w' = classification_detected w \<and>
                  classification_bbox w' = classification_bbox w))) \<and>
      (\<forall>d x y width height.
         detected result \<and> detection result = Some d \<and> bbox d = Inr (x, y, width, height) \<longrightarrow>
         (\<exists>w'. worker_iteration w client = Inr (Continue w') \<and>
            classification_detected w' \<and>
            frames_without_classification w' = 0 \<and>
            classification_bbox w' =
              Some \<lparr>cb_x = x, cb_y = y, cb_width = width, cb_height = height\<rparr>)))"
proof -
  let ?w1 = "w\<lparr>roboflow_queue := (roboflow_queue w)\<lparr>queued := rest\<rparr>\<rparr>"
  have miss: "\<exists>w'. worker_iteration w client = Inr (Continue w') \<and>
            frames_without_classification w' = frames_without_classification w + 1 \<and>
            (if frames_without_classification w + 1 \<ge> ROBOFLOW_PERSISTENCE_FRAMES
             then \<not> classification_detected w' \<and> classification_bbox w' = None
             else classification_detected w' = classification_detected w \<and>
                  classification_bbox w' = classification_bbox w)"
    if run: "roboflow_thread_running w" "queued (roboflow_queue w) = Some frame # rest"
      "client frame = Inr result"
      and none: "\<not> (detected result \<and> detection result \<noteq> None)"
  proof -
    from publish_miss [OF none, of ?w1] obtain w2 where
      pub: "publish_result ?w1 result = Inr w2"
      and w2: "w2 = (if frames_without_classification ?w1 + 1 \<ge> ROBOFLOW_PERSISTENCE_FRAMES
          then ?w1\<lparr>frames_without_classification := frames_without_classification ?w1 + 1,
                 classification_detected := False, classification_bbox := None\<rparr>
          else ?w1\<lparr>frames_without_classification := frames_without_classification ?w1 + 1\<rparr>)"
      by simp
    from worker_iteration_frame
      [where w = w and client = client and frame = frame and rest = rest, OF run pub] w2
    show ?thesis by simp
  qed
  have hit: "\<exists>w'. worker_iteration w client = Inr (Continue w') \<and>
            classification_detected w' \<and> frames_without_classification w' = 0 \<and>
            classification_bbox w' =
              Some \<lparr>cb_x = x, cb_y = y, cb_width = width, cb_height = height\<rparr>"
    if run: "roboflow_thread_running w" "queued (roboflow_queue w) = Some frame # rest"
      "client frame = Inr result"
      and some: "detected result" "detection result = Some d" "bbox d = Inr (x, y, width, height)"
    for d x y width height
    using worker_iteration_frame
      [where w = w and client = client and frame = frame and rest = rest,
        OF run publish_hit [OF some, of ?w1]]
    by simp
  from detect_returns [of api_key frame call] detect_failure [of api_key frame e]
    no_detection_is_miss [of frame] worker_iteration_returns [of w client] miss hit
  show ?thesis by blast
qed

text \<open>A request that times out, in a worker two misses after a detection.\<close>

lemma timeout_counts_as_miss:
  "timeout_client sample_frame = Inr (no_detection sample_frame) \<and>
   (\<exists>w'. worker_iteration busy_worker timeout_client = Inr (Continue w') \<and>
      frames_without_classification w' = 3 \<and>
      \<not> classification_detected w' \<and> classification_bbox w' = None)"
proof -
  have run: "roboflow_thread_running busy_worker"
    "queued (roboflow_queue busy_worker) = Some sample_frame # []"
    and count: "frames_without_classification busy_worker = 2"
    by (simp_all add: busy_worker_def)
  have failed: "timeout_client sample_frame = Inr (no_detection sample_frame)"
    by (simp add: timeout_client_def detect_failure)
  have nothing: "\<not> (detected (no_detection sample_frame) \<and> detection (no_detection sample_frame) \<noteq> None)"
    by (simp add: no_detection_def)
  from classifier_result_is_published
    [where w = busy_worker and client = timeout_client and frame = sample_frame
      and rest = "[]" and result = "no_detection sample_frame"] run failed nothing
  have "\<exists>w'. worker_iteration busy_worker timeout_client = Inr (Continue w') \<and>
      frames_without_classification w' = 3 \<and>
      \<not> classification_detected w' \<and> classification_bbox w' = None"
    by (simp add: count ROBOFLOW_PERSISTENCE_FRAMES_def)
  with failed show ?thesis by simp
qed

text \<open>Integers of ordinary size convert to \<open>float\<close>; from \<open>2^1024\<close> on they do not.\<close>

lemma small_int_converts: "\<bar>n\<bar> \<le> 2 ^ 64 \<Longrightarrow> \<not> float_overflow n"
proof -
  have "(2::int) ^ 64 < 2 ^ 1024 - 2 ^ 970" by simp
  then show "\<bar>n\<bar> \<le> 2 ^ 64 \<Longrightarrow> \<not> float_overflow n"
    by (simp add: float_overflow_def)
qed

lemma small_int_halves: "\<bar>n\<bar> \<le> 2 ^ 64 \<Longrightarrow> halved (JInt n) = Inr (of_int n / 2)"
proof -
  have "(2::int) ^ 64 < 2 ^ 1025 - 2 ^ 971" by simp
  then show "\<bar>n\<bar> \<le> 2 ^ 64 \<Longrightarrow> halved (JInt n) = Inr (of_int n / 2)"
    by simp
qed

lemma huge_int_overflows:
  "format_float (JInt (2 ^ 1024)) = Inl OverflowError \<and>
   minus_float (JInt (2 ^ 1024)) q = Inl OverflowError \<and>
   halved (JInt (2 ^ 1025)) = Inl OverflowError"
  by (simp add: float_overflow_def)

lemma laptop_reply:
  "laptop_client sample_frame =
     Inr \<lparr>detected = True,
          detection = Some \<lparr>class_name = ''laptop'', confidence = JFloat 0.9,
            det_x = JInt 10, det_y = JInt 20, det_width = JInt 4, det_height = JInt 8\<rparr>,
          image_width = shape1 sample_frame, image_height = shape0 sample_frame\<rparr>"
  by (simp add: laptop_client_def detect_def detect_try_def parse_response_def parse_try_def
      ROBOFLOW_TARGET_CLASS_def log_detection_def small_int_converts)

lemma text_width_reply:
  "text_width_client sample_frame =
     Inr \<lparr>detected = True,
          detection = Some \<lparr>class_name = ''laptop'', confidence = JFloat 0.9,
            det_x = JInt 10, det_y = JInt 20, det_width = JStr ''4'', det_height = JInt 8\<rparr>,
          image_width = shape1 sample_frame, image_height = shape0 sample_frame\<rparr>"
  by (simp add: text_width_client_def detect_def detect_try_def parse_response_def parse_try_def
      ROBOFLOW_TARGET_CLASS_def log_detection_def small_int_converts)

lemma laptop_box:
  "bbox \<lparr>class_name = ''laptop'', confidence = JFloat 0.9,
      det_x = JInt 10, det_y = JInt 20, det_width = JInt 4, det_height = JInt 8\<rparr> =
     Inr (8, 16, 4, 8)"
  by (simp add: bbox_def small_int_converts small_int_halves)

lemma text_width_box:
  "bbox \<lparr>class_name = ''laptop'', confidence = JFloat 0.9,
      det_x = JInt 10, det_y = JInt 20, det_width = JStr ''4'', det_height = JInt 8\<rparr> =
     Inl TypeError"
  by (simp add: bbox_def)

text \<open>
  C4. The claim holds for failed calls and for results without a detection (see
  \<open>classifier_result_is_published\<close>), but not for every success with a detection. A
  reply with status 200 whose prediction is a laptop with width \<open>"4"\<close>, a string, makes
  \<open>detect\<close> return \<open>detected = True\<close> (the values it formats for the log are
  confidence, x and y only). The worker then sets \<open>classification_detected\<close> and resets
  the count, \<open>det.bbox\<close> raises \<open>TypeError\<close>, the handler of the loop logs it, and the
  box of the earlier detection stays: the box of this detection is not stored. With width
  4, a number, the box (8, 16, 4, 8) is stored.
\<close>

theorem text_width_leaves_stale_box:
  "classification_bbox busy_worker = Some \<lparr>cb_x = 1, cb_y = 2, cb_width = 3, cb_height = 4\<rparr> \<and>
   (\<exists>d. text_width_client sample_frame =
          Inr \<lparr>detected = True, detection = Some d,
               image_width = shape1 sample_frame, image_height = shape0 sample_frame\<rparr> \<and>
        bbox d = Inl TypeError) \<and>
   (\<exists>w'. worker_iteration busy_worker text_width_client = Inr (Continue w') \<and>
      classification_detected w' \<and>
      frames_without_classification w' = 0 \<and>
      classification_bbox w' = Some \<lparr>cb_x = 1, cb_y = 2, cb_width = 3, cb_height = 4\<rparr>) \<and>
   (\<exists>w'. worker_iteration busy_worker laptop_client = Inr (Continue w') \<and>
      classification_detected w' \<and>
      frames_without_classification w' = 0 \<and>
      classification_bbox w' = Some \<lparr>cb_x = 8, cb_y = 16, cb_width = 4, cb_height = 8\<rparr>)"
proof -
  have stale: "classification_bbox busy_worker =
      Some \<lparr>cb_x = 1, cb_y = 2, cb_width = 3, cb_height = 4\<rparr>"
    by (simp add: busy_worker_def)
  have run: "roboflow_thread_running busy_worker"
    "queued (roboflow_queue busy_worker) = [Some sample_frame]"
    by (simp_all add: busy_worker_def)
  have bad: "\<exists>w'. worker_iteration busy_worker text_width_client = Inr (Continue w') \<and>
      classification_detected w' \<and> frames_without_classification w' = 0 \<and>
      classification_bbox w' = Some \<lparr>cb_x = 1, cb_y = 2, cb_width = 3, cb_height = 4\<rparr>"
    using run stale
    by (simp add: worker_iteration_def worker_try_def queue_get_def text_width_reply
        publish_result_def text_width_box Let_def)
  have good: "\<exists>w'. worker_iteration busy_worker laptop_client = Inr (Continue w') \<and>
      classification_detected w' \<and> frames_without_classification w' = 0 \<and>
      classification_bbox w' = Some \<lparr>cb_x = 8, cb_y = 16, cb_width = 4, cb_height = 8\<rparr>"
    using run
    by (simp add: worker_iteration_def worker_try_def queue_get_def laptop_reply
        publish_result_def laptop_box Let_def)
  from stale text_width_reply text_width_box bad good show ?thesis by blast
qed

end
